theory Spec2Isabelle
  imports Complex_Main "HOL-Library.Product_Lexorder" "HOL-Library.Char_ord"
    "HOL-Library.List_Lexorder" "HOL-Library.Multiset"
begin

section \<open>Values\<close>

text \<open>
  A float64 cell of a pandas Series or DataFrame column. \<open>None\<close> is NaN (pandas' missing
  value); \<open>Some x\<close> is the number \<open>x\<close>. Comparing, selecting and copying cells is exact.
  Sums, differences, products and quotients of cells are those of the real numbers, where
  IEEE doubles round and overflow: the theorems below state no value of such an
  expression, and the examples use numbers whose means are exact in doubles.
\<close>

type_synonym cell = "real option"

text \<open>The exceptions the modelled code can raise.\<close>

datatype py_error = ValueError | ZeroDivisionError | OverflowError

text \<open>
  Python integers are unbounded. In \<open>window + 1.0\<close> the integer is converted to the nearest
  double, ties to even; an integer of magnitude \<open>2 ^ 1024 - 2 ^ 970\<close> or more has none, and
  the conversion raises \<open>OverflowError\<close>.
\<close>

definition float_limit :: int where
  "float_limit = 2 ^ 1024 - 2 ^ 970"

text \<open>
  The bounds of a rolling window and the sums of an integer column are signed 64-bit
  integers: \<open>int64_wrap\<close> is the value such an integer takes after an addition.
\<close>

definition int64_limit :: int where
  "int64_limit = 2 ^ 63"

definition int64_wrap :: "int \<Rightarrow> int" where
  "int64_wrap n = (n + int64_limit) mod (2 * int64_limit) - int64_limit"

text \<open>The observations of a window: pandas' reductions skip NaN.\<close>

fun present :: "'a option list \<Rightarrow> 'a list" where
  "present [] = []"
| "present (None # cs) = present cs"
| "present (Some x # cs) = x # present cs"

section \<open>technical_indicators.py\<close>

subsection \<open>\<open>Series.rolling(window, min_periods).mean()\<close>\<close>

text \<open>
  The trailing window of a fixed-size rolling object that ends at position \<open>i\<close>: the
  positions \<open>max 0 (i + 1 - w), ..., i\<close>.
\<close>

definition rolling_window :: "nat \<Rightarrow> 'a list \<Rightarrow> nat \<Rightarrow> 'a list" where
  "rolling_window w xs i = drop (Suc i - w) (take (Suc i) xs)"

text \<open>
  The mean of a window: NaN unless the window holds at least \<open>min_periods\<close> observations
  (and at least one).
\<close>

definition window_mean :: "int \<Rightarrow> real list \<Rightarrow> cell" where
  "window_mean min_periods obs =
     (if min_periods \<le> int (length obs) \<and> obs \<noteq> []
      then Some (sum_list obs / real (length obs)) else None)"

text \<open>
  \<open>series.rolling(window=window, min_periods=min_periods).mean()\<close> for an integer window.
  Building the rolling object validates its arguments and raises \<open>ValueError\<close> when
  \<open>min_periods\<close> is negative, when \<open>min_periods\<close> exceeds the window, or when the window is
  negative. An empty series is returned as it is. Otherwise the window bounds are
  computed as 64-bit integers, which fails for a window of \<open>2 ^ 63\<close> or more. The result has
  one cell per input cell.
\<close>

definition rolling_mean :: "int \<Rightarrow> int \<Rightarrow> cell list \<Rightarrow> py_error + cell list" where
  "rolling_mean window min_periods series =
     (if min_periods < 0 then Inl ValueError
      else if window < min_periods then Inl ValueError
      else if window < 0 then Inl ValueError
      else if series \<noteq> [] \<and> int64_limit \<le> window then Inl OverflowError
      else Inr (map (\<lambda>i. window_mean min_periods (present (rolling_window (nat window) series i)))
                  [0..<length series]))"

subsection \<open>\<open>calculate_sma\<close>\<close>

definition calculate_sma :: "cell list \<Rightarrow> int \<Rightarrow> py_error + cell list" where
  "calculate_sma series window = rolling_mean window 1 series"

subsection \<open>\<open>calculate_ema\<close>\<close>

text \<open>
  \<open>(current_price - prev_ema) * alpha + prev_ema\<close> on float cells: NaN in either operand
  gives NaN.
\<close>

fun ema_formula :: "real \<Rightarrow> cell \<Rightarrow> cell \<Rightarrow> cell" where
  "ema_formula alpha (Some current_price) (Some prev_ema) =
     Some ((current_price - prev_ema) * alpha + prev_ema)"
| "ema_formula alpha _ _ = None"

text \<open>
  \<open>xs.iloc[i - 1]\<close> for a loop index \<open>i\<close>: position \<open>-1\<close> is the last element in Python.
\<close>

definition iloc_prev :: "'a list \<Rightarrow> nat \<Rightarrow> 'a" where
  "iloc_prev xs i = (if i = 0 then last xs else xs ! (i - 1))"

text \<open>
  The body of the loop \<open>for i in range(len(series))\<close>; the state is the Series \<open>ema\<close>,
  written at position \<open>i\<close>. All three Series have the length of \<open>series\<close>, so every
  read and write at \<open>i\<close> is in range.
\<close>

definition ema_body :: "real \<Rightarrow> int \<Rightarrow> cell list \<Rightarrow> cell list \<Rightarrow> nat \<Rightarrow> cell list \<Rightarrow> cell list" where
  "ema_body alpha window series sma_initial i ema =
     (if int i < window - 1 then ema[i := series ! i]
      else if int i = window - 1 then ema[i := sma_initial ! i]
      else ema[i := ema_formula alpha (series ! i) (iloc_prev ema i)])"

text \<open>
  In \<open>alpha = 2.0 / (window + 1.0)\<close> the conversion of \<open>window\<close> to a double raises
  \<open>OverflowError\<close> for a window beyond \<open>float_limit\<close>, and the Python float division raises
  \<open>ZeroDivisionError\<close> for \<open>window = -1\<close>. \<open>ema\<close> starts as a Series of NaN over the index of
  \<open>series\<close>; the rolling mean is computed next, then the loop runs.
\<close>

definition calculate_ema :: "cell list \<Rightarrow> int \<Rightarrow> py_error + cell list" where
  "calculate_ema series window =
     (if float_limit \<le> \<bar>window\<bar> then Inl OverflowError
      else if real_of_int window + 1 = 0 then Inl ZeroDivisionError
      else
        let alpha = 2 / (real_of_int window + 1);
            ema = replicate (length series) None
        in case rolling_mean window 1 series of
             Inl e \<Rightarrow> Inl e
           | Inr sma_initial \<Rightarrow>
               Inr (fold (ema_body alpha window series sma_initial) [0..<length series] ema))"

subsection \<open>\<open>add_technical_indicators\<close>\<close>

text \<open>
  Calendar dates (the DatetimeIndex of the frames) are triples of year, month and day,
  ordered chronologically by the lexicographic order on triples.
\<close>

type_synonym date = "int \<times> nat \<times> nat"

text \<open>
  A row of the monthly frame. The price columns are float cells and the volume is a
  64-bit sum of integers. The four indicator columns are absent (\<open>None\<close>) in the aggregator's
  output and hold a float cell per row once \<open>add_technical_indicators\<close> has assigned them.
\<close>

record monthly_row =
  m_ticker :: string
  m_date :: date
  m_open :: cell
  m_high :: cell
  m_low :: cell
  m_close :: cell
  m_adjclose :: cell
  m_volume :: int
  SMA_10 :: "cell option"
  SMA_20 :: "cell option"
  EMA_10 :: "cell option"
  EMA_20 :: "cell option"

text \<open>
  DataFrames are mutable objects. The heap lists the frames allocated so far; a
  reference is a position in it. \<open>df.copy()\<close> and \<open>df.sort_index()\<close> allocate a new frame
  and leave their argument alone; \<open>df[col] = series\<close> overwrites the column of the frame
  that \<open>df\<close> refers to, in place. \<open>sort_index\<close> orders the rows by date. A frame that is
  already in date order is returned as it is; otherwise pandas promises no order among
  rows of equal date, and this model keeps their relative order.
\<close>

type_synonym frame = "monthly_row list"
type_synonym heap = "frame list"

definition df_copy :: "heap \<Rightarrow> nat \<Rightarrow> heap \<times> nat" where
  "df_copy h df = (h @ [h ! df], length h)"

definition df_sort_index :: "heap \<Rightarrow> nat \<Rightarrow> heap \<times> nat" where
  "df_sort_index h df = (h @ [sort_key m_date (h ! df)], length h)"

definition df_setitem ::
  "(monthly_row \<Rightarrow> cell \<Rightarrow> monthly_row) \<Rightarrow> heap \<Rightarrow> nat \<Rightarrow> cell list \<Rightarrow> heap" where
  "df_setitem col h df series = h[df := map2 col (h ! df) series]"

definition add_technical_indicators :: "heap \<Rightarrow> nat \<Rightarrow> py_error + heap \<times> nat" where
  "add_technical_indicators h df0 =
     (let (h1, df1) = df_copy h df0;
          (h2, df) = df_sort_index h1 df1
      in case calculate_sma (map m_close (h2 ! df)) 10 of
           Inl e \<Rightarrow> Inl e
         | Inr sma10 \<Rightarrow>
      let h3 = df_setitem (\<lambda>r v. r\<lparr>SMA_10 := Some v\<rparr>) h2 df sma10
      in case calculate_sma (map m_close (h3 ! df)) 20 of
           Inl e \<Rightarrow> Inl e
         | Inr sma20 \<Rightarrow>
      let h4 = df_setitem (\<lambda>r v. r\<lparr>SMA_20 := Some v\<rparr>) h3 df sma20
      in case calculate_ema (map m_close (h4 ! df)) 10 of
           Inl e \<Rightarrow> Inl e
         | Inr ema10 \<Rightarrow>
      let h5 = df_setitem (\<lambda>r v. r\<lparr>EMA_10 := Some v\<rparr>) h4 df ema10
      in case calculate_ema (map m_close (h5 ! df)) 20 of
           Inl e \<Rightarrow> Inl e
         | Inr ema20 \<Rightarrow>
      let h6 = df_setitem (\<lambda>r v. r\<lparr>EMA_20 := Some v\<rparr>) h5 df ema20
      in Inr (h6, df))"

section \<open>monthly_aggregator.py\<close>

subsection \<open>Dates and month-end bins\<close>

definition is_leap_year :: "int \<Rightarrow> bool" where
  "is_leap_year y \<longleftrightarrow> y mod 4 = 0 \<and> (y mod 100 \<noteq> 0 \<or> y mod 400 = 0)"

definition days_in_month :: "int \<Rightarrow> nat \<Rightarrow> nat" where
  "days_in_month y m =
     (if m = 2 then (if is_leap_year y then 29 else 28)
      else if m = 4 \<or> m = 6 \<or> m = 9 \<or> m = 11 then 30 else 31)"

text \<open>The dates a Timestamp can hold.\<close>

definition valid_date :: "date \<Rightarrow> bool" where
  "valid_date d = (case d of (y, m, dd) \<Rightarrow> 1 \<le> m \<and> m \<le> 12 \<and> 1 \<le> dd \<and> dd \<le> days_in_month y m)"

text \<open>
  The bins of \<open>resample('ME')\<close> are the calendar months, numbered consecutively; a bin is
  labelled with the last day of its month.
\<close>

definition month_index :: "date \<Rightarrow> int" where
  "month_index d = (case d of (y, m, dd) \<Rightarrow> y * 12 + (int m - 1))"

definition month_end :: "int \<Rightarrow> date" where
  "month_end k = (k div 12, nat (k mod 12) + 1, days_in_month (k div 12) (nat (k mod 12) + 1))"

subsection \<open>Rows and the aggregation functions\<close>

text \<open>
  A row of the daily frame; every value column may hold a missing value. The volume
  column holds integers.
\<close>

record daily_row =
  d_date :: date
  d_ticker :: string
  d_open :: cell
  d_high :: cell
  d_low :: cell
  d_close :: cell
  d_adjclose :: cell
  d_volume :: "int option"

text \<open>
  The aggregations \<open>'first'\<close>, \<open>'last'\<close>, \<open>'max'\<close>, \<open>'min'\<close> and \<open>'sum'\<close> of a bin's column.
  All of them skip missing values; over no observation the first four are missing and
  the sum is \<open>0\<close>. The sum of the integer volume column is accumulated in a signed
  64-bit integer and wraps around.
\<close>

definition agg_first :: "'a option list \<Rightarrow> 'a option" where
  "agg_first cs = (case present cs of [] \<Rightarrow> None | x # xs \<Rightarrow> Some x)"

definition agg_last :: "'a option list \<Rightarrow> 'a option" where
  "agg_last cs = (case present cs of [] \<Rightarrow> None | x # xs \<Rightarrow> Some (last (x # xs)))"

definition agg_max :: "cell list \<Rightarrow> cell" where
  "agg_max cs = (case present cs of [] \<Rightarrow> None | x # xs \<Rightarrow> Some (fold max xs x))"

definition agg_min :: "cell list \<Rightarrow> cell" where
  "agg_min cs = (case present cs of [] \<Rightarrow> None | x # xs \<Rightarrow> Some (fold min xs x))"

definition agg_sum :: "int option list \<Rightarrow> int" where
  "agg_sum cs = fold (\<lambda>v acc. int64_wrap (acc + v)) (present cs) 0"

text \<open>The row that \<open>.agg({...})\<close> computes for ticker \<open>t\<close> and bin \<open>k\<close> from the bin's rows.\<close>

definition agg_bin :: "string \<Rightarrow> int \<Rightarrow> daily_row list \<Rightarrow> monthly_row" where
  "agg_bin t k rows =
     \<lparr> m_ticker = t, m_date = month_end k,
       m_open = agg_first (map d_open rows),
       m_high = agg_max (map d_high rows),
       m_low = agg_min (map d_low rows),
       m_close = agg_last (map d_close rows),
       m_adjclose = agg_last (map d_adjclose rows),
       m_volume = agg_sum (map d_volume rows),
       SMA_10 = None, SMA_20 = None, EMA_10 = None, EMA_20 = None \<rparr>"

subsection \<open>\<open>aggregate_monthly_ohlc\<close>\<close>

text \<open>
  \<open>.resample('ME').agg({...})\<close> on the rows of one ticker. The rows are put in date
  order (rows of equal date keep their order), and there is one bin for every calendar
  month from the month of the earliest row to the month of the latest row, whether or
  not any row falls into it.
\<close>

definition resample_ME_agg :: "string \<Rightarrow> daily_row list \<Rightarrow> monthly_row list" where
  "resample_ME_agg t rows =
     (case sort_key d_date rows of
        [] \<Rightarrow> []
      | r # rs \<Rightarrow>
          map (\<lambda>k. agg_bin t k (filter (\<lambda>x. month_index (d_date x) = k) (r # rs)))
            [month_index (d_date r)..month_index (d_date (last (r # rs)))])"

text \<open>
  \<open>df.groupby('ticker')\<close> visits the tickers in ascending order, each with its rows in
  the order of the frame; the per-ticker results are concatenated.
\<close>

definition groupby_resample_agg :: "daily_row list \<Rightarrow> monthly_row list" where
  "groupby_resample_agg df =
     concat (map (\<lambda>t. resample_ME_agg t (filter (\<lambda>r. d_ticker r = t) df))
               (sort (remdups (map d_ticker df))))"

text \<open>\<open>dropna(subset=['open', 'high', 'low', 'close'])\<close>\<close>

definition ohlc_present :: "monthly_row \<Rightarrow> bool" where
  "ohlc_present m \<longleftrightarrow> m_open m \<noteq> None \<and> m_high m \<noteq> None \<and> m_low m \<noteq> None \<and> m_close m \<noteq> None"

definition dropna_ohlc :: "monthly_row list \<Rightarrow> monthly_row list" where
  "dropna_ohlc monthly_data = filter ohlc_present monthly_data"

text \<open>
  \<open>reset_index()\<close> followed by \<open>set_index('date')\<close> leaves the rows as they are in this
  representation, where ticker and date are fields of the row.
\<close>

definition aggregate_monthly_ohlc :: "daily_row list \<Rightarrow> monthly_row list" where
  "aggregate_monthly_ohlc df = dropna_ohlc (groupby_resample_agg df)"

subsection \<open>Inputs\<close>

text \<open>
  A well-formed daily row has its open, high, low, close and volume. A complete one has
  its adjusted close as well, so no value of it is missing.
\<close>

definition well_formed_row :: "daily_row \<Rightarrow> bool" where
  "well_formed_row r \<longleftrightarrow>
     d_open r \<noteq> None \<and> d_high r \<noteq> None \<and> d_low r \<noteq> None \<and> d_close r \<noteq> None \<and>
     d_volume r \<noteq> None"

definition complete_row :: "daily_row \<Rightarrow> bool" where
  "complete_row r \<longleftrightarrow> well_formed_row r \<and> d_adjclose r \<noteq> None"

text \<open>The values of an int64 column.\<close>

definition int64_value :: "int \<Rightarrow> bool" where
  "int64_value v \<longleftrightarrow> - int64_limit \<le> v \<and> v < int64_limit"

text \<open>
  No ticker has a calendar month without rows between two months in which it has rows.
\<close>

definition months_contiguous :: "daily_row list \<Rightarrow> bool" where
  "months_contiguous df \<longleftrightarrow>
     (\<forall>a\<in>set df. \<forall>b\<in>set df. d_ticker a = d_ticker b \<longrightarrow>
        (\<forall>k. month_index (d_date a) \<le> k \<and> k \<le> month_index (d_date b) \<longrightarrow>
           (\<exists>r\<in>set df. d_ticker r = d_ticker a \<and> month_index (d_date r) = k)))"

text \<open>A window beyond the range of doubles.\<close>

definition huge_window :: int where
  "huge_window = 2 ^ 1024"

text \<open>Three trading days of one month.\<close>

definition january_example :: "daily_row list" where
  "january_example =
     [\<lparr>d_date = (2022, 1, 3), d_ticker = ''TEST'', d_open = Some 100, d_high = Some 105,
        d_low = Some 95, d_close = Some 102, d_adjclose = Some 102, d_volume = Some 1000000\<rparr>,
      \<lparr>d_date = (2022, 1, 4), d_ticker = ''TEST'', d_open = Some 101, d_high = Some 106,
        d_low = Some 96, d_close = Some 103, d_adjclose = Some 103, d_volume = Some 1000000\<rparr>,
      \<lparr>d_date = (2022, 1, 5), d_ticker = ''TEST'', d_open = Some 102, d_high = Some 107,
        d_low = Some 97, d_close = Some 104, d_adjclose = Some 104, d_volume = Some 1000000\<rparr>]"

text \<open>Two trading days with the whole of February between them.\<close>

definition gap_example :: "daily_row list" where
  "gap_example =
     [\<lparr>d_date = (2022, 1, 31), d_ticker = ''TEST'', d_open = Some 100, d_high = Some 105,
        d_low = Some 95, d_close = Some 102, d_adjclose = Some 102, d_volume = Some 1000000\<rparr>,
      \<lparr>d_date = (2022, 3, 1), d_ticker = ''TEST'', d_open = Some 101, d_high = Some 106,
        d_low = Some 96, d_close = Some 103, d_adjclose = Some 103, d_volume = Some 1000000\<rparr>]"

text \<open>Two trading days of one month whose volumes add up to \<open>2 ^ 63\<close>.\<close>

definition volume_overflow_example :: "daily_row list" where
  "volume_overflow_example =
     [\<lparr>d_date = (2022, 1, 3), d_ticker = ''TEST'', d_open = Some 100, d_high = Some 105,
        d_low = Some 95, d_close = Some 102, d_adjclose = Some 102,
        d_volume = Some 4611686018427387904\<rparr>,
      \<lparr>d_date = (2022, 1, 4), d_ticker = ''TEST'', d_open = Some 101, d_high = Some 106,
        d_low = Some 96, d_close = Some 103, d_adjclose = Some 103,
        d_volume = Some 4611686018427387904\<rparr>]"

text \<open>Two tickers, in neither ticker nor date order.\<close>

definition two_ticker_example :: "daily_row list" where
  "two_ticker_example =
     [\<lparr>d_date = (2022, 1, 3), d_ticker = ''B'', d_open = Some 10, d_high = Some 12,
        d_low = Some 9, d_close = Some 11, d_adjclose = Some 11, d_volume = Some 500\<rparr>,
      \<lparr>d_date = (2022, 2, 1), d_ticker = ''A'', d_open = Some 21, d_high = Some 23,
        d_low = Some 20, d_close = Some 22, d_adjclose = Some 22, d_volume = Some 700\<rparr>,
      \<lparr>d_date = (2022, 1, 4), d_ticker = ''A'', d_open = Some 20, d_high = Some 22,
        d_low = Some 19, d_close = Some 21, d_adjclose = Some 21, d_volume = Some 600\<rparr>]"

text \<open>A monthly frame of three months, and the same frame with its indicator columns.\<close>

definition monthly_example :: frame where
  "monthly_example =
     [\<lparr>m_ticker = ''TEST'', m_date = (2022, 1, 31), m_open = Some 9, m_high = Some 12,
        m_low = Some 8, m_close = Some 10, m_adjclose = Some 10, m_volume = 1000,
        SMA_10 = None, SMA_20 = None, EMA_10 = None, EMA_20 = None\<rparr>,
      \<lparr>m_ticker = ''TEST'', m_date = (2022, 2, 28), m_open = Some 10, m_high = Some 22,
        m_low = Some 9, m_close = Some 20, m_adjclose = Some 20, m_volume = 2000,
        SMA_10 = None, SMA_20 = None, EMA_10 = None, EMA_20 = None\<rparr>,
      \<lparr>m_ticker = ''TEST'', m_date = (2022, 3, 31), m_open = Some 20, m_high = Some 33,
        m_low = Some 19, m_close = Some 30, m_adjclose = Some 30, m_volume = 3000,
        SMA_10 = None, SMA_20 = None, EMA_10 = None, EMA_20 = None\<rparr>]"

definition annotated_example :: frame where
  "annotated_example =
     [\<lparr>m_ticker = ''TEST'', m_date = (2022, 1, 31), m_open = Some 9, m_high = Some 12,
        m_low = Some 8, m_close = Some 10, m_adjclose = Some 10, m_volume = 1000,
        SMA_10 = Some (Some 10), SMA_20 = Some (Some 10),
        EMA_10 = Some (Some 10), EMA_20 = Some (Some 10)\<rparr>,
      \<lparr>m_ticker = ''TEST'', m_date = (2022, 2, 28), m_open = Some 10, m_high = Some 22,
        m_low = Some 9, m_close = Some 20, m_adjclose = Some 20, m_volume = 2000,
        SMA_10 = Some (Some 15), SMA_20 = Some (Some 15),
        EMA_10 = Some (Some 20), EMA_20 = Some (Some 20)\<rparr>,
      \<lparr>m_ticker = ''TEST'', m_date = (2022, 3, 31), m_open = Some 20, m_high = Some 33,
        m_low = Some 19, m_close = Some 30, m_adjclose = Some 30, m_volume = 3000,
        SMA_10 = Some (Some 20), SMA_20 = Some (Some 20),
        EMA_10 = Some (Some 30), EMA_20 = Some (Some 30)\<rparr>]"

section \<open>Properties of the averaging functions\<close>

lemma int64_limit_pos: "20 < int64_limit"
  by (simp add: int64_limit_def)

lemma int64_below_float_limit: "int64_limit < float_limit"
proof -
  define a :: int where "a = 2 ^ 970"
  define c :: int where "c = 2 ^ 1024"
  have "(2::int) ^ 63 < 2 ^ 970" by (rule power_strict_increasing) simp_all
  then have 1: "int64_limit < a" by (simp only: a_def int64_limit_def)
  have "(2::int) ^ 971 \<le> 2 ^ 1024" by (rule power_increasing) simp_all
  moreover have "(2::int) ^ 971 = 2 ^ 970 + 2 ^ 970"
    by (simp only: power_Suc2[symmetric] mult_2_right[symmetric] One_nat_def[symmetric]
        Suc_numeral) simp
  ultimately have 2: "a + a \<le> c" by (simp only: a_def c_def)
  have "float_limit = c - a" by (simp only: float_limit_def a_def c_def)
  with 1 2 show ?thesis by linarith
qed

lemma huge_window_pos: "0 < huge_window"
  unfolding huge_window_def by (rule zero_less_power) simp

lemma float_limit_le_huge_window: "float_limit \<le> huge_window"
proof -
  have "(0::int) \<le> 2 ^ 970" by (rule zero_le_power) simp
  then show ?thesis unfolding float_limit_def huge_window_def by linarith
qed

lemma length_fold_ema_body:
  "length (fold (ema_body alpha window series sma) ks ema) = length ema"
  by (induction ks arbitrary: ema) (simp_all add: ema_body_def)

lemma rolling_mean_pos:
  "0 < window \<Longrightarrow> window < int64_limit \<Longrightarrow>
   rolling_mean window 1 series =
     Inr (map (\<lambda>i. window_mean 1 (present (rolling_window (nat window) series i)))
            [0..<length series])"
  by (simp add: rolling_mean_def)

lemma rolling_mean_nonpos: "window \<le> 0 \<Longrightarrow> rolling_mean window 1 series = Inl ValueError"
  by (simp add: rolling_mean_def)





text \<open>
  Claim C4, as the code has it. For a window \<open>W \<le> 0\<close> neither function returns a result.
  \<open>calculate_sma\<close> raises \<open>ValueError\<close> (Python's invalid-argument exception). So does
  \<open>calculate_ema\<close>, with two exceptions: at \<open>W = -1\<close> the division \<open>2.0 / (window + 1.0)\<close>
  raises \<open>ZeroDivisionError\<close>, and for \<open>W \<le> -(2 ^ 1024 - 2 ^ 970)\<close> the conversion of the
  window to a double raises \<open>OverflowError\<close>, both before the window is ever validated.
\<close>

theorem nonpositive_window_fails:
  "W \<le> 0 \<Longrightarrow>
   calculate_sma S W = Inl ValueError \<and>
   calculate_ema S W =
     Inl (if W \<le> - float_limit then OverflowError
          else if W = - 1 then ZeroDivisionError else ValueError)"
proof -
  assume W: "W \<le> 0"
  have "1 < float_limit" using int64_limit_pos int64_below_float_limit by simp
  then have "W \<le> - float_limit \<longleftrightarrow> float_limit \<le> \<bar>W\<bar>" using W by auto
  moreover have "real_of_int W + 1 = 0 \<longleftrightarrow> W = - 1"
  proof -
    have "real_of_int W + 1 = real_of_int (W + 1)" by simp
    also have "\<dots> = 0 \<longleftrightarrow> W + 1 = 0" by (rule of_int_eq_0_iff)
    finally show ?thesis by auto
  qed
  ultimately show ?thesis
    using W by (simp add: calculate_sma_def calculate_ema_def rolling_mean_nonpos)
qed

theorem nonpositive_window_fails_witness:
  "(0::int) \<le> 0 \<and> (- 1::int) \<le> 0 \<and> - huge_window \<le> 0 \<and>
   calculate_sma [Some 1, Some 2, Some 3] 0 = Inl ValueError \<and>
   calculate_ema [Some 1, Some 2, Some 3] 0 = Inl ValueError \<and>
   calculate_sma [Some 1, Some 2, Some 3] (- 1) = Inl ValueError \<and>
   calculate_ema [Some 1, Some 2, Some 3] (- 1) = Inl ZeroDivisionError \<and>
   calculate_sma [Some 1, Some 2, Some 3] (- huge_window) = Inl ValueError \<and>
   calculate_ema [Some 1, Some 2, Some 3] (- huge_window) = Inl OverflowError"
proof -
  have small: "\<not> (0::int) \<le> - float_limit" "\<not> (- 1::int) \<le> - float_limit"
    using int64_limit_pos int64_below_float_limit by simp_all
  have huge: "- huge_window \<le> 0" "- huge_window \<le> - float_limit"
    using huge_window_pos float_limit_le_huge_window by simp_all
  from nonpositive_window_fails[of 0 "[Some 1, Some 2, Some 3]"]
    nonpositive_window_fails[of "- 1" "[Some 1, Some 2, Some 3]"]
    nonpositive_window_fails[OF huge(1), of "[Some 1, Some 2, Some 3]"] small huge
  show ?thesis by simp
qed

text \<open>
  Claim C4 as stated fails: with window \<open>-1\<close> the error of \<open>calculate_ema\<close> is not the
  invalid-argument error.
\<close>

theorem ema_window_minus_one_not_ValueError:
  "calculate_ema [Some 1, Some 2, Some 3] (- 1) \<noteq> Inl ValueError"
proof -
  have "\<not> float_limit \<le> \<bar>- 1 :: int\<bar>"
    using int64_limit_pos int64_below_float_limit by simp
  then show ?thesis by (simp add: calculate_ema_def)
qed

section \<open>Properties of the monthly aggregation\<close>

lemmas agg_defs = aggregate_monthly_ohlc_def dropna_ohlc_def ohlc_present_def
  groupby_resample_agg_def resample_ME_agg_def month_index_def month_end_def is_leap_year_def
  days_in_month_def agg_bin_def agg_first_def agg_last_def agg_max_def agg_min_def agg_sum_def
  int64_wrap_def int64_limit_def

lemma month_index_month_end: "month_index (month_end k) = k"
  by (simp add: month_index_def month_end_def)

lemma month_end_month_index:
  "1 \<le> mo \<Longrightarrow> mo \<le> 12 \<Longrightarrow> month_end (month_index (y, mo, dd)) = (y, mo, days_in_month y mo)"
proof -
  assume a: "1 \<le> mo" "mo \<le> 12"
  define j where "j = int mo - 1"
  have j: "0 \<le> j" "j < 12" using a by (simp_all add: j_def)
  have d: "(y * 12 + j) div 12 = y" using j by simp
  have m: "(y * 12 + j) mod 12 = j" using j by simp
  have "nat j + 1 = mo" using a by (simp add: j_def)
  with d m show ?thesis
    by (simp add: month_index_def month_end_def j_def[symmetric])
qed

lemma month_end_strict_mono: "k < k' \<Longrightarrow> month_end k < month_end k'"
proof -
  assume lt: "k < k'"
  then have le: "k div 12 \<le> k' div 12" by (simp add: zdiv_mono1)
  show ?thesis
  proof (cases "k div 12 = k' div 12")
    case True
    have "k = 12 * (k div 12) + k mod 12" "k' = 12 * (k' div 12) + k' mod 12" by simp_all
    with lt True have "k mod 12 < k' mod 12" by linarith
    moreover have "0 \<le> k mod 12" by simp
    ultimately have "nat (k mod 12) < nat (k' mod 12)" by linarith
    with True show ?thesis by (simp add: month_end_def)
  next
    case False
    with le have "k div 12 < k' div 12" by simp
    then show ?thesis by (simp add: month_end_def)
  qed
qed

lemma month_index_mono:
  assumes "valid_date d" "valid_date d'" "d \<le> d'"
  shows "month_index d \<le> month_index d'"
proof -
  obtain y mo dd y' mo' dd' where d: "d = (y, mo, dd)" "d' = (y', mo', dd')"
    by (metis prod_cases3)
  from assms(1,2) have b: "1 \<le> mo" "mo \<le> 12" "1 \<le> mo'" "mo' \<le> 12"
    by (simp_all add: d valid_date_def)
  from assms(3) have "y < y' \<or> (y = y' \<and> mo \<le> mo')"
    by (auto simp: d)
  with b show ?thesis
    by (auto simp: d month_index_def)
qed

lemma month_index_eq_iff:
  assumes "valid_date d" "valid_date (y, mo, dd)"
  shows "month_index d = month_index (y, mo, dd) \<longleftrightarrow> fst d = y \<and> fst (snd d) = mo"
proof -
  obtain y' mo' dd' where d: "d = (y', mo', dd')" by (metis prod_cases3)
  from assms have b: "1 \<le> int mo" "int mo \<le> 12" "1 \<le> int mo'" "int mo' \<le> 12"
    by (simp_all add: d valid_date_def)
  have "y' = y \<and> int mo' = int mo" if e: "y' * 12 + (int mo' - 1) = y * 12 + (int mo - 1)"
  proof -
    consider "y' < y" | "y' = y" | "y < y'" by linarith
    then show ?thesis using e b by cases linarith+
  qed
  then have "y' * 12 + (int mo' - 1) = y * 12 + (int mo - 1) \<longleftrightarrow> y' = y \<and> int mo' = int mo"
    by auto
  then show ?thesis
    by (simp add: d month_index_def)
qed

lemma present_complete: "\<forall>c\<in>set cs. c \<noteq> None \<Longrightarrow> present cs = map the cs"
  by (induction cs rule: present.induct) simp_all

lemma int64_wrap_add: "int64_wrap (int64_wrap a + v) = int64_wrap (a + v)"
proof -
  have "(int64_wrap a + v + int64_limit) mod (2 * int64_limit) =
        ((a + int64_limit) mod (2 * int64_limit) + v) mod (2 * int64_limit)"
    by (simp add: int64_wrap_def)
  also have "\<dots> = (a + int64_limit + v) mod (2 * int64_limit)"
    by (rule mod_add_left_eq)
  finally show ?thesis
    by (simp add: int64_wrap_def add.commute add.left_commute)
qed

lemma fold_int64_wrap:
  "fold (\<lambda>v acc. int64_wrap (acc + v)) vs (int64_wrap a) = int64_wrap (a + sum_list vs)"
proof (induction vs arbitrary: a)
  case Nil
  then show ?case by simp
next
  case (Cons v vs)
  have "fold (\<lambda>v acc. int64_wrap (acc + v)) (v # vs) (int64_wrap a) =
        fold (\<lambda>v acc. int64_wrap (acc + v)) vs (int64_wrap (a + v))"
    by (simp add: int64_wrap_add)
  also have "\<dots> = int64_wrap (a + v + sum_list vs)" by (rule Cons.IH)
  finally show ?case by (simp add: add.assoc)
qed

lemma int64_wrap_id: "int64_value n \<Longrightarrow> int64_wrap n = n"
  by (simp add: int64_value_def int64_wrap_def int64_limit_def)

lemma agg_sum_wrap: "agg_sum cs = int64_wrap (sum_list (present cs))"
proof -
  have "int64_wrap 0 = 0" by (simp add: int64_wrap_def int64_limit_def)
  with fold_int64_wrap[of "present cs" 0] show ?thesis by (simp add: agg_sum_def)
qed

lemma present_empty_iff: "present cs = [] \<longleftrightarrow> (\<forall>c\<in>set cs. c = None)"
  by (induction cs rule: present.induct) simp_all

lemma agg_first_complete:
  "cs \<noteq> [] \<Longrightarrow> \<forall>c\<in>set cs. c \<noteq> None \<Longrightarrow> agg_first cs = hd cs"
  by (cases cs) (auto simp: agg_first_def)

lemma agg_last_complete:
  assumes "cs \<noteq> []" "\<forall>c\<in>set cs. c \<noteq> None"
  shows "agg_last cs = last cs"
proof -
  from assms have p: "present cs = map the cs" "map the cs \<noteq> []"
    by (simp_all add: present_complete)
  then have "agg_last cs = Some (last (map the cs))"
    by (cases "map the cs") (simp_all add: agg_last_def)
  also have "\<dots> = Some (the (last cs))" using assms(1) by (simp add: last_map)
  also have "\<dots> = last cs" using assms by (simp add: last_in_set)
  finally show ?thesis .
qed

lemma agg_max_complete:
  assumes "cs \<noteq> []" "\<forall>c\<in>set cs. c \<noteq> None"
  shows "agg_max cs = Some (Max (the ` set cs))"
proof -
  from assms have p: "present cs = map the cs" "map the cs \<noteq> []"
    by (simp_all add: present_complete)
  then obtain x xs where xs: "map the cs = x # xs" by (cases "map the cs") auto
  have "Max (the ` set cs) = Max (set (x # xs))" by (simp only: xs[symmetric] set_map)
  also have "\<dots> = fold max xs x" by (rule Max.set_eq_fold)
  finally show ?thesis using p xs by (simp add: agg_max_def)
qed

lemma agg_min_complete:
  assumes "cs \<noteq> []" "\<forall>c\<in>set cs. c \<noteq> None"
  shows "agg_min cs = Some (Min (the ` set cs))"
proof -
  from assms have p: "present cs = map the cs" "map the cs \<noteq> []"
    by (simp_all add: present_complete)
  then obtain x xs where xs: "map the cs = x # xs" by (cases "map the cs") auto
  have "Min (the ` set cs) = Min (set (x # xs))" by (simp only: xs[symmetric] set_map)
  also have "\<dots> = fold min xs x" by (rule Min.set_eq_fold)
  finally show ?thesis using p xs by (simp add: agg_min_def)
qed

lemma agg_first_None_iff: "agg_first cs = None \<longleftrightarrow> (\<forall>c\<in>set cs. c = None)"
  by (simp add: agg_first_def present_empty_iff[symmetric] split: list.splits)

lemma agg_last_None_iff: "agg_last cs = None \<longleftrightarrow> (\<forall>c\<in>set cs. c = None)"
  by (simp add: agg_last_def present_empty_iff[symmetric] split: list.splits)

lemma agg_max_None_iff: "agg_max cs = None \<longleftrightarrow> (\<forall>c\<in>set cs. c = None)"
  by (simp add: agg_max_def present_empty_iff[symmetric] split: list.splits)

lemma agg_min_None_iff: "agg_min cs = None \<longleftrightarrow> (\<forall>c\<in>set cs. c = None)"
  by (simp add: agg_min_def present_empty_iff[symmetric] split: list.splits)

lemma agg_bin_sel [simp]:
  "m_ticker (agg_bin t k rows) = t"
  "m_date (agg_bin t k rows) = month_end k"
  "m_open (agg_bin t k rows) = agg_first (map d_open rows)"
  "m_high (agg_bin t k rows) = agg_max (map d_high rows)"
  "m_low (agg_bin t k rows) = agg_min (map d_low rows)"
  "m_close (agg_bin t k rows) = agg_last (map d_close rows)"
  "m_adjclose (agg_bin t k rows) = agg_last (map d_adjclose rows)"
  "m_volume (agg_bin t k rows) = agg_sum (map d_volume rows)"
  by (simp_all add: agg_bin_def)

lemma resample_ME_agg_eq:
  "resample_ME_agg t rows =
     (if rows = [] then []
      else map (\<lambda>k. agg_bin t k (filter (\<lambda>x. month_index (d_date x) = k) (sort_key d_date rows)))
             [month_index (d_date (hd (sort_key d_date rows)))..
              month_index (d_date (last (sort_key d_date rows)))])"
proof (cases "sort_key d_date rows")
  case Nil
  then have "rows = []" by (metis length_sort list.size(3) length_0_conv)
  with Nil show ?thesis by (simp add: resample_ME_agg_def)
next
  case (Cons r rs)
  then have "rows \<noteq> []" by auto
  with Cons show ?thesis by (simp add: resample_ME_agg_def)
qed

lemma in_groupby_resample_agg:
  "m \<in> set (groupby_resample_agg df) \<longleftrightarrow>
   (\<exists>t\<in>d_ticker ` set df. m \<in> set (resample_ME_agg t (filter (\<lambda>r. d_ticker r = t) df)))"
  by (auto simp: groupby_resample_agg_def)

lemma in_resample_ME_agg:
  "m \<in> set (resample_ME_agg t rows) \<longleftrightarrow>
   rows \<noteq> [] \<and>
   (\<exists>k. month_index (d_date (hd (sort_key d_date rows))) \<le> k \<and>
        k \<le> month_index (d_date (last (sort_key d_date rows))) \<and>
        m = agg_bin t k (filter (\<lambda>x. month_index (d_date x) = k) (sort_key d_date rows)))"
  by (auto simp: resample_ME_agg_eq)

lemma sort_key_bounds:
  assumes "r \<in> set rows"
  shows "f (hd (sort_key f rows)) \<le> f r" "f r \<le> f (last (sort_key f rows))"
proof -
  let ?s = "sort_key f rows"
  have s: "sorted (map f ?s)" by simp
  have r: "r \<in> set ?s" using assms by simp
  then obtain i where i: "i < length ?s" "?s ! i = r" by (meson in_set_conv_nth)
  have ne: "?s \<noteq> []" using assms by (metis length_sort length_0_conv empty_iff empty_set)
  have "rows \<noteq> []" using assms by auto
  then have pos: "0 < length ?s" "length ?s - 1 < length ?s" by simp_all
  have "map f ?s ! 0 \<le> map f ?s ! i"
    using s i(1) by (intro sorted_nth_mono) simp_all
  then have "f (?s ! 0) \<le> f (?s ! i)"
    by (simp only: nth_map[OF pos(1)] nth_map[OF i(1)])
  then show "f (hd ?s) \<le> f r" by (simp only: hd_conv_nth[OF ne] i(2))
  have "map f ?s ! i \<le> map f ?s ! (length ?s - 1)"
    using s i(1) by (intro sorted_nth_mono) simp_all
  then have "f (?s ! i) \<le> f (?s ! (length ?s - 1))"
    by (simp only: nth_map[OF pos(2)] nth_map[OF i(1)])
  then show "f r \<le> f (last ?s)" by (simp only: last_conv_nth[OF ne] i(2))
qed

lemma month_bounds:
  assumes "\<forall>r\<in>set rows. valid_date (d_date r)" "r \<in> set rows"
  shows "month_index (d_date (hd (sort_key d_date rows))) \<le> month_index (d_date r)"
    "month_index (d_date r) \<le> month_index (d_date (last (sort_key d_date rows)))"
proof -
  let ?s = "sort_key d_date rows"
  have ne: "?s \<noteq> []" using assms(2) by (metis length_sort length_0_conv empty_iff empty_set)
  then have "hd ?s \<in> set ?s" "last ?s \<in> set ?s" by (rule hd_in_set, rule last_in_set)
  then have v: "valid_date (d_date (hd ?s))" "valid_date (d_date (last ?s))"
    using assms(1) by simp_all
  show "month_index (d_date (hd ?s)) \<le> month_index (d_date r)"
    using v assms sort_key_bounds(1)[OF assms(2), of d_date] by (intro month_index_mono) simp_all
  show "month_index (d_date r) \<le> month_index (d_date (last ?s))"
    using v assms sort_key_bounds(2)[OF assms(2), of d_date] by (intro month_index_mono) simp_all
qed

lemma sorted_wrt_concat_map:
  assumes "sorted_wrt (<) ts"
    and "\<And>t. sorted_wrt R (f t)"
    and "\<And>t a. a \<in> set (f t) \<Longrightarrow> key a = t"
  shows "sorted_wrt (\<lambda>a b. key a < key b \<or> (key a = key b \<and> R a b)) (concat (map f ts))"
  using assms(1)
proof (induction ts)
  case Nil
  then show ?case by simp
next
  case (Cons t ts)
  have "sorted_wrt (\<lambda>a b. key a < key b \<or> (key a = key b \<and> R a b)) (f t)"
    using assms(2)[of t] by (rule sorted_wrt_mono_rel[rotated]) (simp add: assms(3))
  moreover have "key a < key b" if "a \<in> set (f t)" "u \<in> set ts" "b \<in> set (f u)" for a b u
    using that Cons.prems assms(3) by auto
  ultimately show ?case
    using Cons by (auto simp: sorted_wrt_append)
qed

lemma resample_ME_agg_sorted:
  "sorted_wrt (\<lambda>a b. m_date a < m_date b) (resample_ME_agg t rows)"
proof -
  have "sorted_wrt (\<lambda>k k'. month_end k < month_end k') [lo..hi]" for lo hi
    by (rule sorted_wrt_mono_rel[OF _ sorted_wrt_upto]) (simp add: month_end_strict_mono)
  then show ?thesis
    by (simp add: resample_ME_agg_eq sorted_wrt_map)
qed

lemma resample_ME_agg_ticker: "m \<in> set (resample_ME_agg t rows) \<Longrightarrow> m_ticker m = t"
  by (auto simp: in_resample_ME_agg)

lemma groupby_resample_agg_sorted:
  "sorted_wrt (\<lambda>a b. m_ticker a < m_ticker b \<or> (m_ticker a = m_ticker b \<and> m_date a < m_date b))
     (groupby_resample_agg df)"
  unfolding groupby_resample_agg_def
  by (rule sorted_wrt_concat_map)
    (simp_all add: strict_sorted_iff resample_ME_agg_sorted resample_ME_agg_ticker)

lemma aggregate_monthly_ohlc_sorted:
  "sorted_wrt (\<lambda>a b. m_ticker a < m_ticker b \<or> (m_ticker a = m_ticker b \<and> m_date a < m_date b))
     (aggregate_monthly_ohlc df)"
  unfolding aggregate_monthly_ohlc_def dropna_ohlc_def
  by (rule sorted_wrt_filter) (rule groupby_resample_agg_sorted)

lemma sorted_wrt_ticker_date_nth:
  assumes "sorted_wrt (\<lambda>a b. m_ticker a < m_ticker b \<or> (m_ticker a = m_ticker b \<and> m_date a < m_date b)) out"
  shows "(\<forall>i j k. i < j \<and> j < k \<and> k < length out \<and> m_ticker (out ! i) = m_ticker (out ! k)
            \<longrightarrow> m_ticker (out ! j) = m_ticker (out ! i)) \<and>
         (\<forall>i j. i < j \<and> j < length out \<and> m_ticker (out ! i) = m_ticker (out ! j)
            \<longrightarrow> m_date (out ! i) < m_date (out ! j))"
proof -
  have P: "m_ticker (out ! i) < m_ticker (out ! j) \<or>
           (m_ticker (out ! i) = m_ticker (out ! j) \<and> m_date (out ! i) < m_date (out ! j))"
    if "i < j" "j < length out" for i j
    using assms that by (simp add: sorted_wrt_iff_nth_less)
  have "m_ticker (out ! j) = m_ticker (out ! i)"
    if "i < j" "j < k" "k < length out" "m_ticker (out ! i) = m_ticker (out ! k)" for i j k
  proof -
    have "m_ticker (out ! i) \<le> m_ticker (out ! j)" using P[of i j] that by auto
    moreover have "m_ticker (out ! j) \<le> m_ticker (out ! k)" using P[of j k] that by auto
    ultimately show ?thesis using that(4) by simp
  qed
  moreover have "m_date (out ! i) < m_date (out ! j)"
    if "i < j" "j < length out" "m_ticker (out ! i) = m_ticker (out ! j)" for i j
    using P[of i j] that by auto
  ultimately show ?thesis by blast
qed

text \<open>
  Claim C8. The output of \<open>aggregate_monthly_ohlc\<close> is grouped by ticker (between two rows
  of one ticker there are only rows of that ticker) and, within a ticker, the rows are in
  strictly ascending order of their month-end dates. This holds for every input frame,
  pre-sorted or not: \<open>groupby\<close> visits the tickers in order and \<open>resample\<close> emits the bins
  of a ticker in calendar order.
\<close>

theorem aggregate_output_grouped_and_chronological:
  "(\<forall>i j k. i < j \<and> j < k \<and> k < length (aggregate_monthly_ohlc df) \<and>
       m_ticker (aggregate_monthly_ohlc df ! i) = m_ticker (aggregate_monthly_ohlc df ! k)
       \<longrightarrow> m_ticker (aggregate_monthly_ohlc df ! j) = m_ticker (aggregate_monthly_ohlc df ! i)) \<and>
   (\<forall>i j. i < j \<and> j < length (aggregate_monthly_ohlc df) \<and>
       m_ticker (aggregate_monthly_ohlc df ! i) = m_ticker (aggregate_monthly_ohlc df ! j)
       \<longrightarrow> m_date (aggregate_monthly_ohlc df ! i) < m_date (aggregate_monthly_ohlc df ! j))"
  by (rule sorted_wrt_ticker_date_nth) (rule aggregate_monthly_ohlc_sorted)

theorem aggregate_output_grouped_and_chronological_witness:
  "map (\<lambda>m. (m_ticker m, m_date m)) (aggregate_monthly_ohlc two_ticker_example) =
     [(''A'', (2022, 1, 31)), (''A'', (2022, 2, 28)), (''B'', (2022, 1, 31))] \<and>
   (0::nat) < 1 \<and> (1::nat) < 2 \<and> 2 < length (aggregate_monthly_ohlc two_ticker_example) \<and>
   m_ticker (aggregate_monthly_ohlc two_ticker_example ! 0) =
     m_ticker (aggregate_monthly_ohlc two_ticker_example ! 1) \<and>
   m_date (aggregate_monthly_ohlc two_ticker_example ! 0) <
     m_date (aggregate_monthly_ohlc two_ticker_example ! 1)"
  using aggregate_output_grouped_and_chronological[of two_ticker_example]
  by (simp add: two_ticker_example_def agg_defs)

lemma bin_rows_set:
  "set (filter (\<lambda>x. month_index (d_date x) = k) (sort_key d_date (filter (\<lambda>r. d_ticker r = t) df)))
   = {r \<in> set df. d_ticker r = t \<and> month_index (d_date r) = k}"
  by auto

lemma ohlc_present_agg_bin_nonempty:
  "ohlc_present (agg_bin t k rows) \<Longrightarrow> rows \<noteq> []"
  by (auto simp: ohlc_present_def agg_first_None_iff)

lemma ohlc_present_agg_bin_well_formed:
  assumes "\<forall>r\<in>set rows. well_formed_row r"
  shows "ohlc_present (agg_bin t k rows) \<longleftrightarrow> rows \<noteq> []"
proof
  assume "rows \<noteq> []"
  then obtain r where "r \<in> set rows" by (cases rows) auto
  with assms show "ohlc_present (agg_bin t k rows)"
    unfolding ohlc_present_def agg_bin_sel agg_first_None_iff agg_last_None_iff
      agg_max_None_iff agg_min_None_iff well_formed_row_def
    by (auto simp del: not_None_eq)
qed (rule ohlc_present_agg_bin_nonempty)

lemma candidate_row_source:
  assumes "m \<in> set (groupby_resample_agg df)"
  obtains k where
    "m = agg_bin (m_ticker m) k (filter (\<lambda>x. month_index (d_date x) = k)
           (sort_key d_date (filter (\<lambda>r. d_ticker r = m_ticker m) df)))"
    "m_date m = month_end k"
    "m_ticker m \<in> d_ticker ` set df"
    "month_index (d_date (hd (sort_key d_date (filter (\<lambda>r. d_ticker r = m_ticker m) df)))) \<le> k"
    "k \<le> month_index (d_date (last (sort_key d_date (filter (\<lambda>r. d_ticker r = m_ticker m) df))))"
proof -
  from assms obtain t where t: "t \<in> d_ticker ` set df"
    "m \<in> set (resample_ME_agg t (filter (\<lambda>r. d_ticker r = t) df))"
    unfolding in_groupby_resample_agg by blast
  then have mt: "m_ticker m = t" by (simp add: resample_ME_agg_ticker)
  from t(2) obtain k where
    "month_index (d_date (hd (sort_key d_date (filter (\<lambda>r. d_ticker r = t) df)))) \<le> k"
    "k \<le> month_index (d_date (last (sort_key d_date (filter (\<lambda>r. d_ticker r = t) df))))"
    "m = agg_bin t k (filter (\<lambda>x. month_index (d_date x) = k)
           (sort_key d_date (filter (\<lambda>r. d_ticker r = t) df)))"
    unfolding in_resample_ME_agg by blast
  with t(1) mt that[of k] show thesis by simp
qed

lemma candidate_present_iff:
  assumes "\<forall>r\<in>set df. well_formed_row r" "m \<in> set (groupby_resample_agg df)"
  shows "ohlc_present m \<longleftrightarrow>
    (\<exists>r\<in>set df. d_ticker r = m_ticker m \<and> month_index (d_date r) = month_index (m_date m))"
proof -
  from assms(2) obtain k where k:
    "m = agg_bin (m_ticker m) k (filter (\<lambda>x. month_index (d_date x) = k)
           (sort_key d_date (filter (\<lambda>r. d_ticker r = m_ticker m) df)))"
    "m_date m = month_end k"
    by (rule candidate_row_source)
  let ?bin = "filter (\<lambda>x. month_index (d_date x) = k)
           (sort_key d_date (filter (\<lambda>r. d_ticker r = m_ticker m) df))"
  have "\<forall>r\<in>set ?bin. well_formed_row r" using assms(1) by simp
  then have "ohlc_present (agg_bin (m_ticker m) k ?bin) \<longleftrightarrow> ?bin \<noteq> []"
    by (rule ohlc_present_agg_bin_well_formed)
  also have "\<dots> \<longleftrightarrow> set ?bin \<noteq> {}" by (simp only: set_empty)
  also have "\<dots> \<longleftrightarrow> (\<exists>r\<in>set df. d_ticker r = m_ticker m \<and> month_index (d_date r) = k)"
    unfolding bin_rows_set by blast
  finally show ?thesis
    using k by (simp add: month_index_month_end)
qed

lemma output_row_has_source:
  assumes "m \<in> set (aggregate_monthly_ohlc df)"
  shows "\<exists>r\<in>set df. d_ticker r = m_ticker m \<and> month_index (d_date r) = month_index (m_date m)"
proof -
  from assms have c: "m \<in> set (groupby_resample_agg df)" and p: "ohlc_present m"
    by (simp_all add: aggregate_monthly_ohlc_def dropna_ohlc_def)
  from c obtain k where k:
    "m = agg_bin (m_ticker m) k (filter (\<lambda>x. month_index (d_date x) = k)
           (sort_key d_date (filter (\<lambda>r. d_ticker r = m_ticker m) df)))"
    "m_date m = month_end k"
    by (rule candidate_row_source)
  let ?bin = "filter (\<lambda>x. month_index (d_date x) = k)
           (sort_key d_date (filter (\<lambda>r. d_ticker r = m_ticker m) df))"
  from p k(1) have "?bin \<noteq> []" by (metis ohlc_present_agg_bin_nonempty)
  then have "set ?bin \<noteq> {}" using set_empty[of ?bin] by blast
  then have "\<exists>r\<in>set df. d_ticker r = m_ticker m \<and> month_index (d_date r) = k"
    unfolding bin_rows_set by blast
  then show ?thesis using k(2) by (simp add: month_index_month_end)
qed

lemma month_end_valid: "valid_date (month_end k)"
proof -
  have "0 \<le> k mod 12" "k mod 12 < 12" by simp_all
  then have "nat (k mod 12) + 1 \<le> 12" by linarith
  then show ?thesis
    by (auto simp: valid_date_def month_end_def days_in_month_def)
qed

text \<open>
  Claim C5. \<open>aggregate_monthly_ohlc\<close> is a total function: a candidate row whose open,
  high, low or close is missing raises nothing. Every such candidate row is left out of
  the output, every output row has all four values, and every output row has at least
  one daily row of its ticker in its calendar month: a month without trading days of a
  ticker yields no output row for that ticker.
\<close>

theorem missing_ohlc_candidates_dropped:
  assumes "\<forall>r\<in>set df. valid_date (d_date r)"
  shows "(\<forall>c\<in>set (groupby_resample_agg df).
            \<not> ohlc_present c \<longrightarrow> c \<notin> set (aggregate_monthly_ohlc df)) \<and>
         (\<forall>m\<in>set (aggregate_monthly_ohlc df).
            m \<in> set (groupby_resample_agg df) \<and> ohlc_present m \<and>
            (\<exists>r\<in>set df. d_ticker r = m_ticker m \<and>
               fst (d_date r) = fst (m_date m) \<and> fst (snd (d_date r)) = fst (snd (m_date m))))"
proof -
  have "\<exists>r\<in>set df. d_ticker r = m_ticker m \<and>
               fst (d_date r) = fst (m_date m) \<and> fst (snd (d_date r)) = fst (snd (m_date m))"
    if m: "m \<in> set (aggregate_monthly_ohlc df)" for m
  proof -
    from output_row_has_source[OF m] obtain r where r: "r \<in> set df" "d_ticker r = m_ticker m"
      "month_index (d_date r) = month_index (m_date m)" by blast
    from m have "m \<in> set (groupby_resample_agg df)"
      by (simp add: aggregate_monthly_ohlc_def dropna_ohlc_def)
    then obtain k where "m_date m = month_end k" by (rule candidate_row_source)
    then have "valid_date (m_date m)" by (simp add: month_end_valid)
    moreover have "valid_date (d_date r)" using assms r(1) by simp
    ultimately have "fst (d_date r) = fst (m_date m) \<and> fst (snd (d_date r)) = fst (snd (m_date m))"
      using r(3) month_index_eq_iff[of "d_date r" "fst (m_date m)" "fst (snd (m_date m))" "snd (snd (m_date m))"]
      by simp
    with r show ?thesis by blast
  qed
  then show ?thesis
    by (auto simp: aggregate_monthly_ohlc_def dropna_ohlc_def)
qed

theorem missing_ohlc_candidates_dropped_witness:
  "list_all (\<lambda>r. valid_date (d_date r)) gap_example \<and>
   map m_date (groupby_resample_agg gap_example) = [(2022, 1, 31), (2022, 2, 28), (2022, 3, 31)] \<and>
   \<not> ohlc_present (groupby_resample_agg gap_example ! 1) \<and>
   map m_date (aggregate_monthly_ohlc gap_example) = [(2022, 1, 31), (2022, 3, 31)]"
  using missing_ohlc_candidates_dropped[of gap_example]
  by (simp add: gap_example_def agg_defs valid_date_def)

lemma candidate_rowI:
  assumes "a \<in> set df" "d_ticker a = t"
    and "month_index (d_date (hd (sort_key d_date (filter (\<lambda>r. d_ticker r = t) df)))) \<le> k"
    and "k \<le> month_index (d_date (last (sort_key d_date (filter (\<lambda>r. d_ticker r = t) df))))"
  shows "agg_bin t k (filter (\<lambda>x. month_index (d_date x) = k)
           (sort_key d_date (filter (\<lambda>r. d_ticker r = t) df))) \<in> set (groupby_resample_agg df)"
proof -
  have "filter (\<lambda>r. d_ticker r = t) df \<noteq> []"
    using assms(1,2) by (auto simp: filter_empty_conv)
  then have "agg_bin t k (filter (\<lambda>x. month_index (d_date x) = k)
           (sort_key d_date (filter (\<lambda>r. d_ticker r = t) df)))
        \<in> set (resample_ME_agg t (filter (\<lambda>r. d_ticker r = t) df))"
    unfolding in_resample_ME_agg using assms(3,4) by blast
  moreover have "t \<in> d_ticker ` set df" using assms(1,2) by auto
  ultimately show ?thesis unfolding in_groupby_resample_agg by blast
qed

text \<open>
  Claim C6, as the code has it. For well-formed input (valid dates, every daily row with
  its open, high, low, close and volume) a candidate row of the aggregation has its
  open, high, low and close exactly when the ticker has a daily row in that month; so
  the \<open>dropna\<close> filter removes nothing exactly when no ticker has an empty calendar month
  between two of its months with rows, and otherwise it removes the candidate rows of
  those empty months.
\<close>

theorem dropna_removes_exactly_empty_months:
  assumes valid: "\<forall>r\<in>set df. valid_date (d_date r)"
    and well_formed: "\<forall>r\<in>set df. well_formed_row r"
  shows "(\<forall>c\<in>set (groupby_resample_agg df).
            ohlc_present c \<longleftrightarrow>
            (\<exists>r\<in>set df. d_ticker r = m_ticker c \<and>
               month_index (d_date r) = month_index (m_date c))) \<and>
         (aggregate_monthly_ohlc df = groupby_resample_agg df \<longleftrightarrow> months_contiguous df)"
proof (intro conjI ballI)
  fix c assume "c \<in> set (groupby_resample_agg df)"
  with well_formed show "ohlc_present c \<longleftrightarrow>
      (\<exists>r\<in>set df. d_ticker r = m_ticker c \<and> month_index (d_date r) = month_index (m_date c))"
    by (rule candidate_present_iff)
next
  have keep: "aggregate_monthly_ohlc df = groupby_resample_agg df \<longleftrightarrow>
      (\<forall>c\<in>set (groupby_resample_agg df). ohlc_present c)"
    by (simp add: aggregate_monthly_ohlc_def dropna_ohlc_def filter_id_conv)
  show "aggregate_monthly_ohlc df = groupby_resample_agg df \<longleftrightarrow> months_contiguous df"
    unfolding keep
  proof
    assume all: "\<forall>c\<in>set (groupby_resample_agg df). ohlc_present c"
    show "months_contiguous df"
      unfolding months_contiguous_def
    proof (intro ballI impI allI)
      fix a b k
      assume ab: "a \<in> set df" "b \<in> set df" "d_ticker a = d_ticker b"
        and k: "month_index (d_date a) \<le> k \<and> k \<le> month_index (d_date b)"
      let ?g = "filter (\<lambda>r. d_ticker r = d_ticker a) df"
      have v: "\<forall>r\<in>set ?g. valid_date (d_date r)" using valid by simp
      have "a \<in> set ?g" "b \<in> set ?g" using ab by simp_all
      then have "month_index (d_date (hd (sort_key d_date ?g))) \<le> month_index (d_date a)"
        "month_index (d_date b) \<le> month_index (d_date (last (sort_key d_date ?g)))"
        using month_bounds[OF v] by blast+
      with k have "month_index (d_date (hd (sort_key d_date ?g))) \<le> k"
        "k \<le> month_index (d_date (last (sort_key d_date ?g)))" by linarith+
      then have c: "agg_bin (d_ticker a) k (filter (\<lambda>x. month_index (d_date x) = k)
           (sort_key d_date ?g)) \<in> set (groupby_resample_agg df)"
        using ab(1) by (intro candidate_rowI[of a]) simp_all
      with all have "ohlc_present (agg_bin (d_ticker a) k (filter (\<lambda>x. month_index (d_date x) = k)
           (sort_key d_date ?g)))" by blast
      with candidate_present_iff[OF well_formed c]
      show "\<exists>r\<in>set df. d_ticker r = d_ticker a \<and> month_index (d_date r) = k"
        by (simp add: month_index_month_end)
    qed
  next
    assume contiguous: "months_contiguous df"
    show "\<forall>c\<in>set (groupby_resample_agg df). ohlc_present c"
    proof
      fix c assume c: "c \<in> set (groupby_resample_agg df)"
      let ?g = "filter (\<lambda>r. d_ticker r = m_ticker c) df"
      from c obtain k where k: "m_date c = month_end k"
        "m_ticker c \<in> d_ticker ` set df"
        "month_index (d_date (hd (sort_key d_date ?g))) \<le> k"
        "k \<le> month_index (d_date (last (sort_key d_date ?g)))"
        by (rule candidate_row_source)
      from k(2) have "?g \<noteq> []" by (auto simp: filter_empty_conv)
      then have ne: "sort_key d_date ?g \<noteq> []" by (metis length_sort length_0_conv)
      have "hd (sort_key d_date ?g) \<in> set (sort_key d_date ?g)"
        "last (sort_key d_date ?g) \<in> set (sort_key d_date ?g)"
        using ne by (rule hd_in_set, rule last_in_set)
      then have hl: "hd (sort_key d_date ?g) \<in> set df" "d_ticker (hd (sort_key d_date ?g)) = m_ticker c"
        "last (sort_key d_date ?g) \<in> set df" "d_ticker (last (sort_key d_date ?g)) = m_ticker c"
        by simp_all
      from contiguous[unfolded months_contiguous_def, rule_format, OF hl(1) hl(3), of k] hl(2,4) k(3,4)
      have "\<exists>r\<in>set df. d_ticker r = m_ticker c \<and> month_index (d_date r) = k" by simp
      with candidate_present_iff[OF well_formed c] k(1) show "ohlc_present c"
        by (simp add: month_index_month_end)
    qed
  qed
qed

theorem dropna_removes_exactly_empty_months_witness:
  "list_all (\<lambda>r. valid_date (d_date r)) january_example \<and>
   list_all (\<lambda>r. well_formed_row r) january_example \<and>
   months_contiguous january_example \<and>
   aggregate_monthly_ohlc january_example = groupby_resample_agg january_example \<and>
   list_all (\<lambda>r. valid_date (d_date r)) gap_example \<and>
   list_all (\<lambda>r. well_formed_row r) gap_example \<and>
   \<not> months_contiguous gap_example \<and>
   aggregate_monthly_ohlc gap_example \<noteq> groupby_resample_agg gap_example"
proof -
  have j: "list_all (\<lambda>r. valid_date (d_date r)) january_example \<and>
      list_all (\<lambda>r. well_formed_row r) january_example \<and>
      aggregate_monthly_ohlc january_example = groupby_resample_agg january_example"
    by (simp add: january_example_def agg_defs valid_date_def well_formed_row_def)
  have g: "list_all (\<lambda>r. valid_date (d_date r)) gap_example \<and>
      list_all (\<lambda>r. well_formed_row r) gap_example \<and>
      aggregate_monthly_ohlc gap_example \<noteq> groupby_resample_agg gap_example"
    by (simp add: gap_example_def agg_defs valid_date_def well_formed_row_def)
  from j g dropna_removes_exactly_empty_months[of january_example]
    dropna_removes_exactly_empty_months[of gap_example]
  show ?thesis unfolding list_all_iff by blast
qed

text \<open>
  Claim C6 as stated fails: \<open>gap_example\<close> is well-formed and in date order, yet the frame
  before the \<open>dropna\<close> filter has a February row without open and close, and the filter
  removes it.
\<close>

theorem gap_month_candidate_is_dropped:
  "well_formed_row (gap_example ! 0) \<and> well_formed_row (gap_example ! 1) \<and>
   valid_date (d_date (gap_example ! 0)) \<and> valid_date (d_date (gap_example ! 1)) \<and>
   length gap_example = 2 \<and>
   d_ticker (gap_example ! 0) = d_ticker (gap_example ! 1) \<and>
   d_date (gap_example ! 0) < d_date (gap_example ! 1) \<and>
   length (groupby_resample_agg gap_example) = 3 \<and>
   m_date (groupby_resample_agg gap_example ! 1) = (2022, 2, 28) \<and>
   m_open (groupby_resample_agg gap_example ! 1) = None \<and>
   m_close (groupby_resample_agg gap_example ! 1) = None \<and>
   length (aggregate_monthly_ohlc gap_example) = 2 \<and>
   aggregate_monthly_ohlc gap_example \<noteq> groupby_resample_agg gap_example"
  by (simp add: gap_example_def well_formed_row_def valid_date_def days_in_month_def
      aggregate_monthly_ohlc_def dropna_ohlc_def ohlc_present_def groupby_resample_agg_def
      resample_ME_agg_def month_index_def month_end_def is_leap_year_def agg_bin_def
      agg_first_def agg_last_def agg_max_def agg_min_def agg_sum_def int64_wrap_def
      int64_limit_def)

lemma sorted_hd_last_bounds:
  assumes "sorted (map f g)" "r \<in> set g"
  shows "f (hd g) \<le> f r \<and> f r \<le> f (last g)"
proof -
  have "sort_key f g = g" using assms(1) by (rule sort_key_id_if_sorted)
  with sort_key_bounds[OF assms(2), of f] show ?thesis by simp
qed

text \<open>
  Claim C3, as the code has it. Let the daily rows have valid dates, no missing value and
  int64 volumes, and be in date order within each ticker. Then every output row of
  \<open>aggregate_monthly_ohlc\<close> belongs to a non-empty group \<open>g\<close> of daily rows (those of its
  ticker in one calendar month, in input order, the first being the earliest and the
  last the latest), and has the open of the first row of \<open>g\<close>, the close and adjusted
  close of the last row, the maximum of the highs, the minimum of the lows, and the last
  day of that calendar month as its date. Its volume is the sum of the volumes of \<open>g\<close>
  wrapped around to a signed 64-bit integer: the sum itself whenever that is below
  \<open>2 ^ 63\<close> in magnitude.
\<close>

theorem monthly_row_summarises_its_group:
  assumes valid: "\<forall>r\<in>set df. valid_date (d_date r)"
    and chrono: "\<forall>t. sorted (map d_date (filter (\<lambda>r. d_ticker r = t) df))"
    and complete: "\<forall>r\<in>set df. complete_row r"
    and volumes: "\<forall>r\<in>set df. int64_value (the (d_volume r))"
    and m: "m \<in> set (aggregate_monthly_ohlc df)"
  shows "\<exists>y mo g.
      g = filter (\<lambda>r. d_ticker r = m_ticker m \<and> fst (d_date r) = y \<and> fst (snd (d_date r)) = mo) df \<and>
      g \<noteq> [] \<and>
      (\<forall>r\<in>set g. d_date (hd g) \<le> d_date r \<and> d_date r \<le> d_date (last g)) \<and>
      m_open m = d_open (hd g) \<and>
      m_close m = d_close (last g) \<and>
      m_adjclose m = d_adjclose (last g) \<and>
      m_high m = Some (Max ((\<lambda>r. the (d_high r)) ` set g)) \<and>
      m_low m = Some (Min ((\<lambda>r. the (d_low r)) ` set g)) \<and>
      m_volume m = int64_wrap (\<Sum>r\<leftarrow>g. the (d_volume r)) \<and>
      (int64_value (\<Sum>r\<leftarrow>g. the (d_volume r)) \<longrightarrow>
         m_volume m = (\<Sum>r\<leftarrow>g. the (d_volume r))) \<and>
      m_date m = (y, mo, days_in_month y mo)"
proof -
  let ?t = "m_ticker m"
  let ?G = "filter (\<lambda>r. d_ticker r = ?t) df"
  from m have c: "m \<in> set (groupby_resample_agg df)" and p: "ohlc_present m"
    by (simp_all add: aggregate_monthly_ohlc_def dropna_ohlc_def)
  from c obtain k where k:
    "m = agg_bin ?t k (filter (\<lambda>x. month_index (d_date x) = k) (sort_key d_date ?G))"
    "m_date m = month_end k"
    by (rule candidate_row_source)
  have srt: "sort_key d_date ?G = ?G"
    using chrono by (intro sort_key_id_if_sorted) simp
  define g0 where "g0 = filter (\<lambda>r. d_ticker r = ?t \<and> month_index (d_date r) = k) df"
  have bin: "filter (\<lambda>x. month_index (d_date x) = k) (sort_key d_date ?G) = g0"
    unfolding srt g0_def by (simp add: conj_commute)
  have mg: "m = agg_bin ?t k g0" using k(1) unfolding bin .
  have ne: "g0 \<noteq> []"
    using p mg by (metis ohlc_present_agg_bin_nonempty)
  then obtain r0 where r0: "r0 \<in> set g0" by (cases g0) auto
  obtain y mo dd where d0: "d_date r0 = (y, mo, dd)" by (metis prod_cases3)
  have v0: "valid_date (y, mo, dd)" and k0: "month_index (y, mo, dd) = k"
    using r0 valid d0 by (auto simp: g0_def)
  then have mo: "1 \<le> mo" "mo \<le> 12" by (simp_all add: valid_date_def)
  have date: "m_date m = (y, mo, days_in_month y mo)"
    using k(2) k0 month_end_month_index[OF mo, of y dd] by simp
  define g where "g = filter (\<lambda>r. d_ticker r = ?t \<and> fst (d_date r) = y \<and> fst (snd (d_date r)) = mo) df"
  have "g0 = g"
    unfolding g0_def g_def
  proof (rule filter_cong[OF refl])
    fix r assume "r \<in> set df"
    then have "valid_date (d_date r)" using valid by simp
    from month_index_eq_iff[OF this v0] k0
    show "(d_ticker r = ?t \<and> month_index (d_date r) = k) =
          (d_ticker r = ?t \<and> fst (d_date r) = y \<and> fst (snd (d_date r)) = mo)"
      by simp
  qed
  with ne mg have gne: "g \<noteq> []" and mg': "m = agg_bin ?t k g" by simp_all
  have gc: "\<forall>r\<in>set g. complete_row r" using complete by (simp add: g_def)
  have "sorted (map d_date ?G)" using chrono by blast
  then have "sorted (map d_date (filter (\<lambda>r. fst (d_date r) = y \<and> fst (snd (d_date r)) = mo) ?G))"
    by (rule sorted_filter)
  then have gs: "sorted (map d_date g)" by (simp add: g_def conj_commute)
  have bounds: "\<forall>r\<in>set g. d_date (hd g) \<le> d_date r \<and> d_date r \<le> d_date (last g)"
    using sorted_hd_last_bounds[OF gs] by blast
  have col: "map f g \<noteq> []" for f :: "daily_row \<Rightarrow> 'b" using gne by simp
  have "m_open m = agg_first (map d_open g)" by (subst mg') simp
  also have "\<dots> = hd (map d_open g)"
    using gc by (intro agg_first_complete col) (simp add: complete_row_def well_formed_row_def)
  finally have o: "m_open m = d_open (hd g)" using gne by (simp add: hd_map)
  have "m_close m = agg_last (map d_close g)" by (subst mg') simp
  also have "\<dots> = last (map d_close g)"
    using gc by (intro agg_last_complete col) (simp add: complete_row_def well_formed_row_def)
  finally have cl: "m_close m = d_close (last g)" using gne by (simp add: last_map)
  have "m_adjclose m = agg_last (map d_adjclose g)" by (subst mg') simp
  also have "\<dots> = last (map d_adjclose g)"
    using gc by (intro agg_last_complete col) (simp add: complete_row_def well_formed_row_def)
  finally have ac: "m_adjclose m = d_adjclose (last g)" using gne by (simp add: last_map)
  have "m_high m = agg_max (map d_high g)" by (subst mg') simp
  also have "\<dots> = Some (Max (the ` set (map d_high g)))"
    using gc by (intro agg_max_complete col) (simp add: complete_row_def well_formed_row_def)
  finally have hi: "m_high m = Some (Max ((\<lambda>r. the (d_high r)) ` set g))"
    by (simp add: image_image)
  have "m_low m = agg_min (map d_low g)" by (subst mg') simp
  also have "\<dots> = Some (Min (the ` set (map d_low g)))"
    using gc by (intro agg_min_complete col) (simp add: complete_row_def well_formed_row_def)
  finally have lo: "m_low m = Some (Min ((\<lambda>r. the (d_low r)) ` set g))"
    by (simp add: image_image)
  have "m_volume m = agg_sum (map d_volume g)" by (subst mg') simp
  also have "\<dots> = int64_wrap (sum_list (map the (map d_volume g)))"
    unfolding agg_sum_wrap using gc
    by (subst present_complete) (simp_all add: complete_row_def well_formed_row_def)
  finally have vol: "m_volume m = int64_wrap (\<Sum>r\<leftarrow>g. the (d_volume r))"
    by (simp add: comp_def)
  have vol': "int64_value (\<Sum>r\<leftarrow>g. the (d_volume r)) \<longrightarrow>
         m_volume m = (\<Sum>r\<leftarrow>g. the (d_volume r))"
    using vol by (simp add: int64_wrap_id)
  from gne bounds o cl ac hi lo vol vol' date show ?thesis
    unfolding g_def by blast
qed

theorem monthly_row_summarises_its_group_witness:
  "list_all (\<lambda>r. valid_date (d_date r)) january_example \<and>
   (\<forall>t. sorted (map d_date (filter (\<lambda>r. d_ticker r = t) january_example))) \<and>
   list_all (\<lambda>r. complete_row r) january_example \<and>
   list_all (\<lambda>r. int64_value (the (d_volume r))) january_example \<and>
   int64_value (\<Sum>r\<leftarrow>january_example. the (d_volume r)) \<and>
   aggregate_monthly_ohlc january_example =
     [\<lparr>m_ticker = ''TEST'', m_date = (2022, 1, 31), m_open = Some 100, m_high = Some 107,
        m_low = Some 95, m_close = Some 104, m_adjclose = Some 104, m_volume = 3000000,
        SMA_10 = None, SMA_20 = None, EMA_10 = None, EMA_20 = None\<rparr>]"
  using monthly_row_summarises_its_group[of january_example
     "\<lparr>m_ticker = ''TEST'', m_date = (2022, 1, 31), m_open = Some 100, m_high = Some 107,
        m_low = Some 95, m_close = Some 104, m_adjclose = Some 104, m_volume = 3000000,
        SMA_10 = None, SMA_20 = None, EMA_10 = None, EMA_20 = None\<rparr>"]
  by (simp add: january_example_def agg_defs valid_date_def complete_row_def well_formed_row_def
      int64_value_def)

text \<open>
  Claim C3 as stated fails: the two rows of \<open>volume_overflow_example\<close> are valid, complete
  and in date order, their volumes are int64 values with sum \<open>2 ^ 63\<close>, and the monthly
  volume is \<open>- (2 ^ 63)\<close>.
\<close>

theorem monthly_volume_sum_wraps:
  "valid_date (d_date (volume_overflow_example ! 0)) \<and>
   valid_date (d_date (volume_overflow_example ! 1)) \<and>
   complete_row (volume_overflow_example ! 0) \<and> complete_row (volume_overflow_example ! 1) \<and>
   int64_value (the (d_volume (volume_overflow_example ! 0))) \<and>
   int64_value (the (d_volume (volume_overflow_example ! 1))) \<and>
   length volume_overflow_example = 2 \<and>
   d_ticker (volume_overflow_example ! 0) = d_ticker (volume_overflow_example ! 1) \<and>
   d_date (volume_overflow_example ! 0) < d_date (volume_overflow_example ! 1) \<and>
   length (aggregate_monthly_ohlc volume_overflow_example) = 1 \<and>
   (\<Sum>r\<leftarrow>volume_overflow_example. the (d_volume r)) = 9223372036854775808 \<and>
   m_volume (aggregate_monthly_ohlc volume_overflow_example ! 0) = - 9223372036854775808"
  by (simp add: volume_overflow_example_def agg_defs valid_date_def complete_row_def
      well_formed_row_def int64_value_def)

section \<open>Properties of the indicator annotation\<close>

lemma calculate_sma_Inr:
  "0 < w \<Longrightarrow> w \<le> 20 \<Longrightarrow> \<exists>a. calculate_sma c w = Inr a \<and> length a = length c"
  using int64_limit_pos by (simp add: calculate_sma_def rolling_mean_pos)

lemma calculate_ema_Inr:
  assumes "0 < w" "w \<le> 20"
  shows "\<exists>a. calculate_ema c w = Inr a \<and> length a = length c"
proof -
  have "w < int64_limit" using assms(2) int64_limit_pos by simp
  moreover from this have "\<not> float_limit \<le> \<bar>w\<bar>"
    using assms(1) int64_below_float_limit by simp
  ultimately show ?thesis
    using assms(1)
    by (simp add: calculate_ema_def rolling_mean_pos Let_def length_fold_ema_body)
qed

lemma map2_keeps_column:
  assumes "length v = length s" "\<And>r x. f (u r x) = f r"
  shows "map f (map2 u s v) = map f s"
  using assms(1) by (intro nth_equalityI) (simp_all add: assms(2))

lemma add_technical_indicators_frame:
  assumes "df0 < length h"
  shows "\<exists>a b c d.
     calculate_sma (map m_close (sort_key m_date (h ! df0))) 10 = Inr a \<and>
     calculate_sma (map m_close (sort_key m_date (h ! df0))) 20 = Inr b \<and>
     calculate_ema (map m_close (sort_key m_date (h ! df0))) 10 = Inr c \<and>
     calculate_ema (map m_close (sort_key m_date (h ! df0))) 20 = Inr d \<and>
     length a = length (h ! df0) \<and> length b = length (h ! df0) \<and>
     length c = length (h ! df0) \<and> length d = length (h ! df0) \<and>
     add_technical_indicators h df0 =
       Inr (h @ [h ! df0,
                 map2 (\<lambda>r v. r\<lparr>EMA_20 := Some v\<rparr>)
                   (map2 (\<lambda>r v. r\<lparr>EMA_10 := Some v\<rparr>)
                     (map2 (\<lambda>r v. r\<lparr>SMA_20 := Some v\<rparr>)
                       (map2 (\<lambda>r v. r\<lparr>SMA_10 := Some v\<rparr>) (sort_key m_date (h ! df0)) a) b) c) d],
            Suc (length h))"
proof -
  let ?s = "sort_key m_date (h ! df0)"
  let ?cl = "map m_close ?s"
  obtain a where a: "calculate_sma ?cl 10 = Inr a" "length a = length ?cl"
    using calculate_sma_Inr[of 10 ?cl] by auto
  obtain b where b: "calculate_sma ?cl 20 = Inr b" "length b = length ?cl"
    using calculate_sma_Inr[of 20 ?cl] by auto
  obtain c where c: "calculate_ema ?cl 10 = Inr c" "length c = length ?cl"
    using calculate_ema_Inr[of 10 ?cl] by auto
  obtain d where d: "calculate_ema ?cl 20 = Inr d" "length d = length ?cl"
    using calculate_ema_Inr[of 20 ?cl] by auto
  let ?f1 = "map2 (\<lambda>r v. r\<lparr>SMA_10 := Some v\<rparr>) ?s a"
  let ?f2 = "map2 (\<lambda>r v. r\<lparr>SMA_20 := Some v\<rparr>) ?f1 b"
  let ?f3 = "map2 (\<lambda>r v. r\<lparr>EMA_10 := Some v\<rparr>) ?f2 c"
  have c1: "map m_close ?f1 = ?cl"
    using a(2) by (intro map2_keeps_column) simp_all
  have l1: "length ?f1 = length ?s" using a(2) by simp
  have c2: "map m_close ?f2 = ?cl"
    using b(2) l1 c1 map2_keeps_column[of b ?f1 m_close "\<lambda>r v. r\<lparr>SMA_20 := Some v\<rparr>"] by simp
  have l2: "length ?f2 = length ?s" using b(2) l1 by simp
  have c3: "map m_close ?f3 = ?cl"
    using c(2) l2 c2 map2_keeps_column[of c ?f2 m_close "\<lambda>r v. r\<lparr>EMA_10 := Some v\<rparr>"] by simp
  have "add_technical_indicators h df0 = Inr (h @ [h ! df0,
       map2 (\<lambda>r v. r\<lparr>EMA_20 := Some v\<rparr>) ?f3 d], Suc (length h))"
    using assms a(1) b(1) c(1) d(1)
    by (simp add: add_technical_indicators_def df_copy_def df_sort_index_def df_setitem_def
        nth_append c1 c2 c3 list_update_append del: map_map)
  then show ?thesis
    using a b c d by auto
qed

lemma filter_same_key_distinct:
  "distinct (map f zs) \<Longrightarrow> k \<in> set zs \<Longrightarrow> filter (\<lambda>x. f k = f x) zs = [k]"
proof (induction zs)
  case Nil
  then show ?case by simp
next
  case (Cons z zs)
  show ?case
  proof (cases "k = z")
    case True
    have "filter (\<lambda>x. f z = f x) zs = []"
      using Cons.prems(1) by (auto simp: filter_empty_conv)
    with True show ?thesis by simp
  next
    case False
    with Cons.prems have kz: "k \<in> set zs" by simp
    then have "f k \<in> f ` set zs" by (rule imageI)
    with Cons.prems(1) have "f k \<noteq> f z" by auto
    note kz this
    with Cons show ?thesis by simp
  qed
qed

lemma sort_key_permutation:
  assumes "mset xs = mset ys" "distinct (map f ys)"
  shows "sort_key f xs = sort_key f ys"
proof (rule properties_for_sort_key)
  show "mset (sort_key f ys) = mset xs" using assms(1) by simp
  show "sorted (map f (sort_key f ys))" by simp
  fix k assume "k \<in> set (sort_key f ys)"
  then have k: "k \<in> set ys" by simp
  then have kx: "k \<in> set xs" using assms(1) by (metis mset_eq_setD)
  have "mset (map f xs) = mset (map f ys)" using assms(1) by (metis mset_map)
  then have dx: "distinct (map f xs)" using assms(2) by (metis mset_eq_imp_distinct_iff)
  have "mset (map f (sort_key f ys)) = mset (map f ys)" by simp
  then have ds: "distinct (map f (sort_key f ys))" using assms(2) by (metis mset_eq_imp_distinct_iff)
  have ks: "k \<in> set (sort_key f ys)" using k by simp
  show "filter (\<lambda>x. f k = f x) (sort_key f ys) = filter (\<lambda>x. f k = f x) xs"
    by (simp only: filter_same_key_distinct[OF ds ks] filter_same_key_distinct[OF dx kx])
qed

lemma indicator_frame_nth:
  assumes "i < length s" "length a = length s" "length b = length s" "length c = length s"
    "length d = length s"
  shows "map2 (\<lambda>r v. r\<lparr>EMA_20 := Some v\<rparr>)
           (map2 (\<lambda>r v. r\<lparr>EMA_10 := Some v\<rparr>)
             (map2 (\<lambda>r v. r\<lparr>SMA_20 := Some v\<rparr>)
               (map2 (\<lambda>r v. r\<lparr>SMA_10 := Some v\<rparr>) s a) b) c) d ! i =
         (s ! i)\<lparr>SMA_10 := Some (a ! i), SMA_20 := Some (b ! i),
                  EMA_10 := Some (c ! i), EMA_20 := Some (d ! i)\<rparr>"
  using assms by simp

lemma indicator_frame_length:
  assumes "length a = length s" "length b = length s" "length c = length s" "length d = length s"
  shows "length (map2 (\<lambda>r v. r\<lparr>EMA_20 := Some v\<rparr>)
           (map2 (\<lambda>r v. r\<lparr>EMA_10 := Some v\<rparr>)
             (map2 (\<lambda>r v. r\<lparr>SMA_20 := Some v\<rparr>)
               (map2 (\<lambda>r v. r\<lparr>SMA_10 := Some v\<rparr>) s a) b) c) d) = length s"
  using assms by simp

lemma add_technical_indicators_rows:
  assumes "df0 < length h"
  shows "\<exists>a b c d F.
     calculate_sma (map m_close (sort_key m_date (h ! df0))) 10 = Inr a \<and>
     calculate_sma (map m_close (sort_key m_date (h ! df0))) 20 = Inr b \<and>
     calculate_ema (map m_close (sort_key m_date (h ! df0))) 10 = Inr c \<and>
     calculate_ema (map m_close (sort_key m_date (h ! df0))) 20 = Inr d \<and>
     add_technical_indicators h df0 = Inr (h @ [h ! df0, F], Suc (length h)) \<and>
     length F = length (h ! df0) \<and>
     (\<forall>i<length (h ! df0). F ! i =
        (sort_key m_date (h ! df0) ! i)\<lparr>SMA_10 := Some (a ! i), SMA_20 := Some (b ! i),
                  EMA_10 := Some (c ! i), EMA_20 := Some (d ! i)\<rparr>)"
proof -
  from add_technical_indicators_frame[OF assms] obtain a b c d where r:
     "calculate_sma (map m_close (sort_key m_date (h ! df0))) 10 = Inr a"
     "calculate_sma (map m_close (sort_key m_date (h ! df0))) 20 = Inr b"
     "calculate_ema (map m_close (sort_key m_date (h ! df0))) 10 = Inr c"
     "calculate_ema (map m_close (sort_key m_date (h ! df0))) 20 = Inr d"
     "length a = length (h ! df0)" "length b = length (h ! df0)"
     "length c = length (h ! df0)" "length d = length (h ! df0)"
     "add_technical_indicators h df0 =
       Inr (h @ [h ! df0,
                 map2 (\<lambda>r v. r\<lparr>EMA_20 := Some v\<rparr>)
                   (map2 (\<lambda>r v. r\<lparr>EMA_10 := Some v\<rparr>)
                     (map2 (\<lambda>r v. r\<lparr>SMA_20 := Some v\<rparr>)
                       (map2 (\<lambda>r v. r\<lparr>SMA_10 := Some v\<rparr>) (sort_key m_date (h ! df0)) a) b) c) d],
            Suc (length h))"
    by blast
  let ?s = "sort_key m_date (h ! df0)"
  let ?F = "map2 (\<lambda>r v. r\<lparr>EMA_20 := Some v\<rparr>)
                   (map2 (\<lambda>r v. r\<lparr>EMA_10 := Some v\<rparr>)
                     (map2 (\<lambda>r v. r\<lparr>SMA_20 := Some v\<rparr>)
                       (map2 (\<lambda>r v. r\<lparr>SMA_10 := Some v\<rparr>) ?s a) b) c) d"
  have len: "length a = length ?s" "length b = length ?s" "length c = length ?s" "length d = length ?s"
    using r(5-8) by simp_all
  have "length ?F = length (h ! df0)"
    using indicator_frame_length[OF len] by simp
  moreover have "\<forall>i<length (h ! df0). ?F ! i =
        (?s ! i)\<lparr>SMA_10 := Some (a ! i), SMA_20 := Some (b ! i),
                  EMA_10 := Some (c ! i), EMA_20 := Some (d ! i)\<rparr>"
    using indicator_frame_nth[OF _ len] by simp
  ultimately show ?thesis using r(1-4,9) by blast
qed

lemma small_window:
  "\<not> int64_limit \<le> 10" "\<not> int64_limit \<le> 20"
  "\<not> float_limit \<le> 10" "\<not> float_limit \<le> 20"
  using int64_limit_pos int64_below_float_limit by simp_all

lemmas indicator_defs = add_technical_indicators_def df_copy_def df_sort_index_def df_setitem_def
  calculate_sma_def calculate_ema_def rolling_mean_def window_mean_def rolling_window_def
  ema_body_def iloc_prev_def small_window

lemma example_sma_10:
  "calculate_sma [Some 10, Some 20, Some 30] 10 = Inr [Some 10, Some 15, Some 20]"
  by (simp add: indicator_defs)

lemma example_sma_20:
  "calculate_sma [Some 10, Some 20, Some 30] 20 = Inr [Some 10, Some 15, Some 20]"
  by (simp add: indicator_defs)

lemma example_ema_10:
  "calculate_ema [Some 10, Some 20, Some 30] 10 = Inr [Some 10, Some 20, Some 30]"
  by (simp add: indicator_defs)

lemma example_ema_20:
  "calculate_ema [Some 10, Some 20, Some 30] 20 = Inr [Some 10, Some 20, Some 30]"
  by (simp add: indicator_defs)

lemma example_run:
  assumes "df0 < length h" "sort_key m_date (h ! df0) = s"
    "map m_close s = [Some 10, Some 20, Some 30]"
  shows "add_technical_indicators h df0 =
       Inr (h @ [h ! df0,
                 map2 (\<lambda>r v. r\<lparr>EMA_20 := Some v\<rparr>)
                   (map2 (\<lambda>r v. r\<lparr>EMA_10 := Some v\<rparr>)
                     (map2 (\<lambda>r v. r\<lparr>SMA_20 := Some v\<rparr>)
                       (map2 (\<lambda>r v. r\<lparr>SMA_10 := Some v\<rparr>) s
                          [Some 10, Some 15, Some 20]) [Some 10, Some 15, Some 20])
                      [Some 10, Some 20, Some 30]) [Some 10, Some 20, Some 30]],
            Suc (length h))"
  using add_technical_indicators_frame[OF assms(1)]
  unfolding assms(2) assms(3) example_sma_10 example_sma_20 example_ema_10 example_ema_20
  by auto

lemma example_first_run:
  "add_technical_indicators [monthly_example] 0 =
     Inr ([monthly_example, monthly_example, annotated_example], 2)"
proof -
  have "add_technical_indicators [monthly_example] 0 =
       Inr ([monthly_example] @ [[monthly_example] ! 0,
                 map2 (\<lambda>r v. r\<lparr>EMA_20 := Some v\<rparr>)
                   (map2 (\<lambda>r v. r\<lparr>EMA_10 := Some v\<rparr>)
                     (map2 (\<lambda>r v. r\<lparr>SMA_20 := Some v\<rparr>)
                       (map2 (\<lambda>r v. r\<lparr>SMA_10 := Some v\<rparr>) monthly_example
                          [Some 10, Some 15, Some 20]) [Some 10, Some 15, Some 20])
                      [Some 10, Some 20, Some 30]) [Some 10, Some 20, Some 30]],
            Suc (length [monthly_example]))"
    by (rule example_run) (simp_all add: monthly_example_def)
  then show ?thesis
    by (simp add: monthly_example_def annotated_example_def)
qed

lemma example_second_run:
  "add_technical_indicators [monthly_example, monthly_example, annotated_example] 2 =
     Inr ([monthly_example, monthly_example, annotated_example, annotated_example,
           annotated_example], 4)"
proof -
  let ?h = "[monthly_example, monthly_example, annotated_example]"
  have "add_technical_indicators ?h 2 =
       Inr (?h @ [?h ! 2,
                 map2 (\<lambda>r v. r\<lparr>EMA_20 := Some v\<rparr>)
                   (map2 (\<lambda>r v. r\<lparr>EMA_10 := Some v\<rparr>)
                     (map2 (\<lambda>r v. r\<lparr>SMA_20 := Some v\<rparr>)
                       (map2 (\<lambda>r v. r\<lparr>SMA_10 := Some v\<rparr>) annotated_example
                          [Some 10, Some 15, Some 20]) [Some 10, Some 15, Some 20])
                      [Some 10, Some 20, Some 30]) [Some 10, Some 20, Some 30]],
            Suc (length ?h))"
    by (rule example_run) (simp_all add: annotated_example_def)
  then show ?thesis
    by (simp add: annotated_example_def)
qed

lemma example_reversed_run:
  "add_technical_indicators [rev monthly_example] 0 =
     Inr ([rev monthly_example, rev monthly_example, annotated_example], 2)"
proof -
  have "add_technical_indicators [rev monthly_example] 0 =
       Inr ([rev monthly_example] @ [[rev monthly_example] ! 0,
                 map2 (\<lambda>r v. r\<lparr>EMA_20 := Some v\<rparr>)
                   (map2 (\<lambda>r v. r\<lparr>EMA_10 := Some v\<rparr>)
                     (map2 (\<lambda>r v. r\<lparr>SMA_20 := Some v\<rparr>)
                       (map2 (\<lambda>r v. r\<lparr>SMA_10 := Some v\<rparr>) monthly_example
                          [Some 10, Some 15, Some 20]) [Some 10, Some 15, Some 20])
                      [Some 10, Some 20, Some 30]) [Some 10, Some 20, Some 30]],
            Suc (length [rev monthly_example]))"
    by (rule example_run) (simp_all add: monthly_example_def)
  then show ?thesis
    by (simp add: monthly_example_def annotated_example_def)
qed

text \<open>
  Claim C9. Called on a frame whose rows are in ascending date order,
  \<open>add_technical_indicators\<close> returns a new frame and leaves every frame that existed
  before the call, its input among them, as it was. The new frame has the rows of the
  input in the same order, each row changed in nothing but its four indicator columns
  \<open>SMA_10\<close>, \<open>SMA_20\<close>, \<open>EMA_10\<close> and \<open>EMA_20\<close>, which hold a cell in every row.
\<close>

theorem add_technical_indicators_only_adds_columns:
  assumes "df0 < length h" "sorted (map m_date (h ! df0))"
  shows "\<exists>h' df'. add_technical_indicators h df0 = Inr (h', df') \<and>
     (\<forall>k<length h. h' ! k = h ! k) \<and>
     length h \<le> df' \<and> df' < length h' \<and>
     length (h' ! df') = length (h ! df0) \<and>
     (\<forall>i<length (h ! df0). \<exists>s10 s20 e10 e20.
        h' ! df' ! i = (h ! df0 ! i)\<lparr>SMA_10 := Some s10, SMA_20 := Some s20,
                                        EMA_10 := Some e10, EMA_20 := Some e20\<rparr>)"
proof -
  from add_technical_indicators_rows[OF assms(1)] obtain a b c d F where r:
    "add_technical_indicators h df0 = Inr (h @ [h ! df0, F], Suc (length h))"
    "length F = length (h ! df0)"
    "\<forall>i<length (h ! df0). F ! i =
        (sort_key m_date (h ! df0) ! i)\<lparr>SMA_10 := Some (a ! i), SMA_20 := Some (b ! i),
                  EMA_10 := Some (c ! i), EMA_20 := Some (d ! i)\<rparr>"
    by blast
  have s: "sort_key m_date (h ! df0) = h ! df0"
    using assms(2) by (rule sort_key_id_if_sorted)
  let ?h' = "h @ [h ! df0, F]"
  have "\<forall>k<length h. ?h' ! k = h ! k" by (simp add: nth_append)
  moreover have "?h' ! Suc (length h) = F" by (simp add: nth_append)
  moreover have "\<forall>i<length (h ! df0). \<exists>s10 s20 e10 e20.
        F ! i = (h ! df0 ! i)\<lparr>SMA_10 := Some s10, SMA_20 := Some s20,
                                 EMA_10 := Some e10, EMA_20 := Some e20\<rparr>"
    using r(3) unfolding s by blast
  ultimately show ?thesis
    using r(1,2) by (intro exI[of _ ?h'] exI[of _ "Suc (length h)"]) simp
qed

theorem add_technical_indicators_only_adds_columns_witness:
  "(0::nat) < length [monthly_example] \<and> sorted (map m_date ([monthly_example] ! 0)) \<and>
   add_technical_indicators [monthly_example] 0 =
     Inr ([monthly_example, monthly_example, annotated_example], 2)"
proof -
  have hyp: "(0::nat) < length [monthly_example]" "sorted (map m_date ([monthly_example] ! 0))"
    by (simp_all add: monthly_example_def)
  from add_technical_indicators_only_adds_columns[OF hyp] example_first_run hyp
  show ?thesis by blast
qed

lemma frame_eqI:
  assumes "length F = length s" "length G = length s"
    "\<forall>i<length s. F ! i = u i" "\<forall>i<length s. G ! i = u i"
  shows "F = G"
  using assms by (intro nth_equalityI) simp_all

text \<open>
  Claim C7. Applying \<open>add_technical_indicators\<close> to its own result gives the same four
  indicator columns again (the whole frame, in fact): the columns are recomputed from
  the close column alone. And for a monthly sequence of one ticker, whose dates are
  distinct, every reordering of the same rows gives the same annotated frame, since the
  rows are sorted by date first. The four indicator columns are a function of the close
  prices in date order: any frame with the same close prices in date order gets the same
  four columns.
\<close>

theorem add_technical_indicators_idempotent_order_independent:
  assumes "df0 < length h"
  shows "\<exists>h1 df1 h2 df2.
     add_technical_indicators h df0 = Inr (h1, df1) \<and>
     add_technical_indicators h1 df1 = Inr (h2, df2) \<and>
     map SMA_10 (h2 ! df2) = map SMA_10 (h1 ! df1) \<and>
     map SMA_20 (h2 ! df2) = map SMA_20 (h1 ! df1) \<and>
     map EMA_10 (h2 ! df2) = map EMA_10 (h1 ! df1) \<and>
     map EMA_20 (h2 ! df2) = map EMA_20 (h1 ! df1) \<and>
     h2 ! df2 = h1 ! df1 \<and>
     (\<forall>g dg. dg < length g \<and> mset (g ! dg) = mset (h ! df0) \<and> distinct (map m_date (h ! df0))
        \<longrightarrow> (\<exists>g1 dg1. add_technical_indicators g dg = Inr (g1, dg1) \<and> g1 ! dg1 = h1 ! df1)) \<and>
     (\<forall>g dg. dg < length g \<and>
          map m_close (sort_key m_date (g ! dg)) = map m_close (sort_key m_date (h ! df0))
        \<longrightarrow> (\<exists>g1 dg1. add_technical_indicators g dg = Inr (g1, dg1) \<and>
               map SMA_10 (g1 ! dg1) = map SMA_10 (h1 ! df1) \<and>
               map SMA_20 (g1 ! dg1) = map SMA_20 (h1 ! df1) \<and>
               map EMA_10 (g1 ! dg1) = map EMA_10 (h1 ! df1) \<and>
               map EMA_20 (g1 ! dg1) = map EMA_20 (h1 ! df1)))"
proof -
  let ?s = "sort_key m_date (h ! df0)"
  from add_technical_indicators_rows[OF assms(1)] obtain a b c d F where r:
    "calculate_sma (map m_close ?s) 10 = Inr a"
    "calculate_sma (map m_close ?s) 20 = Inr b"
    "calculate_ema (map m_close ?s) 10 = Inr c"
    "calculate_ema (map m_close ?s) 20 = Inr d"
    "add_technical_indicators h df0 = Inr (h @ [h ! df0, F], Suc (length h))"
    "length F = length (h ! df0)"
    "\<forall>i<length (h ! df0). F ! i =
        (?s ! i)\<lparr>SMA_10 := Some (a ! i), SMA_20 := Some (b ! i),
                  EMA_10 := Some (c ! i), EMA_20 := Some (d ! i)\<rparr>"
    by blast
  let ?h1 = "h @ [h ! df0, F]"
  let ?df1 = "Suc (length h)"
  have h1F: "?h1 ! ?df1 = F" by (simp add: nth_append)
  have lenF: "length F = length ?s" using r(6) by simp
  have dates: "map m_date F = map m_date ?s"
    using lenF r(7) by (intro nth_equalityI) simp_all
  have closes: "map m_close F = map m_close ?s"
    using lenF r(7) by (intro nth_equalityI) simp_all
  have sF: "sort_key m_date F = F"
    by (rule sort_key_id_if_sorted) (simp add: dates)
  have "?df1 < length ?h1" by simp
  from add_technical_indicators_rows[OF this] obtain a' b' c' d' F' where r':
    "calculate_sma (map m_close F) 10 = Inr a'"
    "calculate_sma (map m_close F) 20 = Inr b'"
    "calculate_ema (map m_close F) 10 = Inr c'"
    "calculate_ema (map m_close F) 20 = Inr d'"
    "add_technical_indicators ?h1 ?df1 = Inr (?h1 @ [F, F'], Suc (length ?h1))"
    "length F' = length F"
    "\<forall>i<length F. F' ! i =
        (F ! i)\<lparr>SMA_10 := Some (a' ! i), SMA_20 := Some (b' ! i),
                  EMA_10 := Some (c' ! i), EMA_20 := Some (d' ! i)\<rparr>"
    unfolding h1F sF by blast
  have same: "a' = a" "b' = b" "c' = c" "d' = d"
    using r(1-4) r'(1-4) unfolding closes by simp_all
  have FF: "F' = F"
    using r'(6) r'(7) r(6) r(7) unfolding same
    by (intro nth_equalityI) simp_all
  let ?h2 = "?h1 @ [F, F']"
  let ?df2 = "Suc (length ?h1)"
  have h2F: "?h2 ! ?df2 = F'" by (simp add: nth_append)
  have "?h2 ! ?df2 = F'" by (rule h2F)
  also have "\<dots> = F" by (rule FF)
  also have "\<dots> = ?h1 ! ?df1" by (rule h1F[symmetric])
  finally have idem: "?h2 ! ?df2 = ?h1 ! ?df1" .
  have order: "\<exists>g1 dg1. add_technical_indicators g dg = Inr (g1, dg1) \<and> g1 ! dg1 = ?h1 ! ?df1"
    if g: "dg < length g" "mset (g ! dg) = mset (h ! df0)" "distinct (map m_date (h ! df0))"
    for g dg
  proof -
    have sg: "sort_key m_date (g ! dg) = ?s"
      using g(2,3) by (rule sort_key_permutation)
    have lg: "length (g ! dg) = length (h ! df0)"
      using g(2) by (metis size_mset)
    from add_technical_indicators_rows[OF g(1)] obtain a2 b2 c2 d2 G where q:
      "calculate_sma (map m_close ?s) 10 = Inr a2"
      "calculate_sma (map m_close ?s) 20 = Inr b2"
      "calculate_ema (map m_close ?s) 10 = Inr c2"
      "calculate_ema (map m_close ?s) 20 = Inr d2"
      "add_technical_indicators g dg = Inr (g @ [g ! dg, G], Suc (length g))"
      "length G = length (h ! df0)"
      "\<forall>i<length (h ! df0). G ! i =
        (?s ! i)\<lparr>SMA_10 := Some (a2 ! i), SMA_20 := Some (b2 ! i),
                  EMA_10 := Some (c2 ! i), EMA_20 := Some (d2 ! i)\<rparr>"
      unfolding sg lg by blast
    have same2: "a2 = a" "b2 = b" "c2 = c" "d2 = d"
      using r(1-4) q(1-4) by simp_all
    have "G = F"
      using q(6) r(6) q(7) r(7) unfolding same2 by (rule frame_eqI)
    moreover have "(g @ [g ! dg, G]) ! Suc (length g) = G" by (simp add: nth_append)
    ultimately show ?thesis using q(5) h1F by auto
  qed
  have closes_only: "\<exists>g1 dg1. add_technical_indicators g dg = Inr (g1, dg1) \<and>
               map SMA_10 (g1 ! dg1) = map SMA_10 (?h1 ! ?df1) \<and>
               map SMA_20 (g1 ! dg1) = map SMA_20 (?h1 ! ?df1) \<and>
               map EMA_10 (g1 ! dg1) = map EMA_10 (?h1 ! ?df1) \<and>
               map EMA_20 (g1 ! dg1) = map EMA_20 (?h1 ! ?df1)"
    if g: "dg < length g"
      "map m_close (sort_key m_date (g ! dg)) = map m_close ?s"
    for g dg
  proof -
    have "length (map m_close (sort_key m_date (g ! dg))) = length (map m_close ?s)"
      by (simp only: g(2))
    then have lg: "length (g ! dg) = length (h ! df0)" by simp
    from add_technical_indicators_rows[OF g(1)] obtain a2 b2 c2 d2 G where q:
      "calculate_sma (map m_close ?s) 10 = Inr a2"
      "calculate_sma (map m_close ?s) 20 = Inr b2"
      "calculate_ema (map m_close ?s) 10 = Inr c2"
      "calculate_ema (map m_close ?s) 20 = Inr d2"
      "add_technical_indicators g dg = Inr (g @ [g ! dg, G], Suc (length g))"
      "length G = length (h ! df0)"
      "\<forall>i<length (h ! df0). G ! i =
        (sort_key m_date (g ! dg) ! i)\<lparr>SMA_10 := Some (a2 ! i), SMA_20 := Some (b2 ! i),
                  EMA_10 := Some (c2 ! i), EMA_20 := Some (d2 ! i)\<rparr>"
      unfolding g(2) lg by blast
    have same2: "a2 = a" "b2 = b" "c2 = c" "d2 = d"
      using r(1-4) q(1-4) by simp_all
    have cols: "map SMA_10 G = map SMA_10 F" "map SMA_20 G = map SMA_20 F"
      "map EMA_10 G = map EMA_10 F" "map EMA_20 G = map EMA_20 F"
      using q(6) r(6) q(7) r(7) unfolding same2
      by (auto intro!: nth_equalityI)
    have "(g @ [g ! dg, G]) ! Suc (length g) = G" by (simp add: nth_append)
    with cols q(5) h1F show ?thesis by auto
  qed
  show ?thesis
    apply (rule exI[of _ ?h1], rule exI[of _ ?df1], rule exI[of _ ?h2], rule exI[of _ ?df2])
    using r(5) r'(5) idem order closes_only by (simp only: simp_thms) blast
qed

theorem add_technical_indicators_idempotent_order_independent_witness:
  "(0::nat) < length [monthly_example] \<and>
   add_technical_indicators [monthly_example] 0 =
     Inr ([monthly_example, monthly_example, annotated_example], 2) \<and>
   add_technical_indicators [monthly_example, monthly_example, annotated_example] 2 =
     Inr ([monthly_example, monthly_example, annotated_example, annotated_example,
           annotated_example], 4) \<and>
   (0::nat) < length [rev monthly_example] \<and>
   mset ([rev monthly_example] ! 0) = mset ([monthly_example] ! 0) \<and>
   distinct (map m_date ([monthly_example] ! 0)) \<and>
   map m_close (sort_key m_date ([rev monthly_example] ! 0)) =
     map m_close (sort_key m_date ([monthly_example] ! 0)) \<and>
   add_technical_indicators [rev monthly_example] 0 =
     Inr ([rev monthly_example, rev monthly_example, annotated_example], 2)"
proof -
  have hyp: "(0::nat) < length [monthly_example]" "(0::nat) < length [rev monthly_example]"
    "mset ([rev monthly_example] ! 0) = mset ([monthly_example] ! 0)"
    by simp_all
  have d: "distinct (map m_date ([monthly_example] ! 0))"
    "map m_close (sort_key m_date ([rev monthly_example] ! 0)) =
     map m_close (sort_key m_date ([monthly_example] ! 0))"
    by (simp_all add: monthly_example_def)
  from add_technical_indicators_idempotent_order_independent[OF hyp(1)]
    example_first_run example_second_run example_reversed_run hyp d
  show ?thesis by blast
qed

end
